theory Spec2Isabelle
  imports Complex_Main "HOL-Library.Stream" "HOL-Library.Multiset"
begin

section \<open>Numbers, errors and the random source\<close>

text \<open>
  The transforms of \<^verbatim>\<open>libmot/tracker/DAN/transforms.py\<close> compute on numpy float arrays.
  Coordinates, IoU values and matrix entries are modelled as rationals (exact arithmetic);
  the two infinite bounds \<^verbatim>\<open>float('-inf')\<close> and \<^verbatim>\<open>float('inf')\<close> and the padding
  value \<^verbatim>\<open>np.inf\<close> are the extra points of \<open>ext\<close>.
\<close>

datatype error = AssertionError | AttributeError | TypeError | ValueError | IndexError
  | ZeroDivisionError | NotImplementedError

datatype ext = NegInf | Fin rat | PosInf

text \<open>\<^verbatim>\<open>a < b\<close> on floats that may be infinite.\<close>

fun ext_less :: "ext \<Rightarrow> ext \<Rightarrow> bool" where
  "ext_less NegInf NegInf = False"
| "ext_less NegInf _ = True"
| "ext_less (Fin a) NegInf = False"
| "ext_less (Fin a) (Fin b) = (a < b)"
| "ext_less (Fin a) PosInf = True"
| "ext_less PosInf _ = False"

text \<open>Python's \<^verbatim>\<open>int(x)\<close> on a float: truncation toward zero.\<close>

definition py_int :: "rat \<Rightarrow> int" where
  "py_int x = (if 0 \<le> x then \<lfloor>x\<rfloor> else \<lceil>x\<rceil>)"

text \<open>
  The global numpy random state, as explicit state: \<open>int_src\<close> feeds \<^verbatim>\<open>random.randint\<close>
  and \<^verbatim>\<open>random.choice\<close>, \<open>unit_src\<close> feeds \<^verbatim>\<open>random.uniform\<close> and \<^verbatim>\<open>random.random\<close>
  with draws from the unit interval, \<open>perm_src\<close> feeds \<^verbatim>\<open>np.random.shuffle\<close>. \<open>trials\<close>
  is a ghost counter the program never reads: it counts the bodies of the trial loop of
  RandomSampleCrop that were run.
\<close>

record world =
  int_src :: "nat stream"
  unit_src :: "rat stream"
  perm_src :: "nat list stream"
  trials :: nat

definition randint :: "nat \<Rightarrow> world \<Rightarrow> nat \<times> world" where
  "randint n w = (shd (int_src w) mod n, w\<lparr>int_src := stl (int_src w)\<rparr>)"

text \<open>\<^verbatim>\<open>random.uniform(low, high)\<close> is \<^verbatim>\<open>low + (high - low) * u\<close> for a unit draw \<open>u\<close>.\<close>

definition uniform :: "rat \<Rightarrow> rat \<Rightarrow> world \<Rightarrow> rat \<times> world" where
  "uniform low high w =
     (low + (high - low) * shd (unit_src w), w\<lparr>unit_src := stl (unit_src w)\<rparr>)"

text \<open>\<^verbatim>\<open>random.random(n)\<close>: an array of \<open>n\<close> unit draws.\<close>

definition random_n :: "nat \<Rightarrow> world \<Rightarrow> rat list \<times> world" where
  "random_n n w = (stake n (unit_src w), w\<lparr>unit_src := sdrop n (unit_src w)\<rparr>)"

text \<open>
  \<^verbatim>\<open>indexes = np.arange(n); np.random.shuffle(indexes)\<close>: the shuffled array is the next
  draw of \<open>perm_src\<close>; it is a permutation of \<open>[0..<n]\<close> for the real generator.
\<close>

definition shuffle_arange :: "nat \<Rightarrow> world \<Rightarrow> nat list \<times> world" where
  "shuffle_arange n w = (shd (perm_src w), w\<lparr>perm_src := stl (perm_src w)\<rparr>)"

section \<open>Constructors that take a range\<close>

record MoveBoxes =
  offset_low :: rat
  offset_high :: rat
  range_mb :: rat

text \<open>
  \<^verbatim>\<open>MoveBoxes.__init__\<close> has no assertion: it clamps. The second \<^verbatim>\<open>max\<close> reads the
  argument \<^verbatim>\<open>offset_low\<close>, not the clamped field.
\<close>

definition MoveBoxes_init :: "rat \<Rightarrow> rat \<Rightarrow> error + MoveBoxes" where
  "MoveBoxes_init offset_low_arg offset_high_arg =
     (let lo = max offset_low_arg 0;
          hi = max offset_low_arg offset_high_arg
      in Inr \<lparr>offset_low = lo, offset_high = hi, range_mb = hi - lo\<rparr>)"

record RandomSaturation =
  sat_lower :: rat
  sat_upper :: rat

definition RandomSaturation_init :: "rat \<Rightarrow> rat \<Rightarrow> error + RandomSaturation" where
  "RandomSaturation_init lower upper =
     (if \<not> upper \<ge> lower then Inl AssertionError
      else if \<not> lower \<ge> 0 then Inl AssertionError
      else Inr \<lparr>sat_lower = lower, sat_upper = upper\<rparr>)"

record RandomContrast =
  con_lower :: rat
  con_upper :: rat

definition RandomContrast_init :: "rat \<Rightarrow> rat \<Rightarrow> error + RandomContrast" where
  "RandomContrast_init lower upper =
     (if \<not> upper \<ge> lower then Inl AssertionError
      else if \<not> lower \<ge> 0 then Inl AssertionError
      else Inr \<lparr>con_lower = lower, con_upper = upper\<rparr>)"

definition RandomBrightness_init :: "rat \<Rightarrow> error + rat" where
  "RandomBrightness_init delta =
     (if \<not> delta \<ge> 0 then Inl AssertionError
      else if \<not> delta \<le> 255 then Inl AssertionError
      else Inr delta)"

definition RandomHue_init :: "rat \<Rightarrow> error + rat" where
  "RandomHue_init delta =
     (if \<not> (delta \<ge> 0 \<and> delta \<le> 360) then Inl AssertionError else Inr delta)"

section \<open>Frames, boxes and the five-tuple\<close>

text \<open>
  A frame is a height x width x depth array; \<open>pixel i j\<close> is the channel vector at
  row \<open>i\<close>, column \<open>j\<close>. A box is a row \<open>(x1, y1, x2, y2)\<close> of an N x 4 array.
\<close>

record image =
  height :: nat
  width :: nat
  depth :: nat
  pixel :: "nat \<Rightarrow> nat \<Rightarrow> rat list"

type_synonym box = "rat \<times> rat \<times> rat \<times> rat"

fun bx1 :: "box \<Rightarrow> rat" where "bx1 (x1, y1, x2, y2) = x1"
fun by1 :: "box \<Rightarrow> rat" where "by1 (x1, y1, x2, y2) = y1"
fun bx2 :: "box \<Rightarrow> rat" where "bx2 (x1, y1, x2, y2) = x2"
fun by2 :: "box \<Rightarrow> rat" where "by2 (x1, y1, x2, y2) = y2"

text \<open>A two-dimensional float array with its shape (numpy keeps the shape of an empty one).\<close>

record matrix =
  shape0 :: nat
  shape1 :: nat
  rows :: "rat list list"

definition wf_matrix :: "matrix \<Rightarrow> bool" where
  "wf_matrix m = (length (rows m) = shape0 m \<and> list_all (\<lambda>r. length r = shape1 m) (rows m))"

record sample =
  img_pre :: image
  img_next :: "image option"
  boxes_pre :: "box list option"
  boxes_next :: "box list option"
  labels :: "matrix option"

section \<open>ToPercentCoords\<close>

text \<open>The in-place column divisions \<^verbatim>\<open>boxes[:, 0] /= width\<close> ... on one box set.\<close>

definition percent_box :: "nat \<Rightarrow> nat \<Rightarrow> box \<Rightarrow> box" where
  "percent_box h w b =
     (bx1 b / of_nat w, by1 b / of_nat h, bx2 b / of_nat w, by2 b / of_nat h)"

definition ToPercentCoords :: "sample \<Rightarrow> error + sample" where
  "ToPercentCoords s =
     (let h = height (img_pre s); w = width (img_pre s) in
      case boxes_pre s of
        None \<Rightarrow> Inl TypeError
      | Some bp \<Rightarrow>
          Inr (s\<lparr>boxes_pre := Some (map (percent_box h w) bp),
                 boxes_next := (case boxes_next s of
                                  None \<Rightarrow> None
                                | Some bn \<Rightarrow> Some (map (percent_box h w) bn))\<rparr>))"

text \<open>Multiplying the x coordinates back by the width and the y coordinates by the height.\<close>

definition scale_back :: "nat \<Rightarrow> nat \<Rightarrow> box \<Rightarrow> box" where
  "scale_back h w b =
     (bx1 b * of_nat w, by1 b * of_nat h, bx2 b * of_nat w, by2 b * of_nat h)"


section \<open>RandomSampleCrop\<close>

type_synonym xywh = "rat \<times> rat \<times> rat \<times> rat"

type_synonym rect = "int \<times> int \<times> int \<times> int"

text \<open>
  \<^verbatim>\<open>libmot.utils.iou\<close> is imported, and its source is not part of the file: \<open>crop\<close>
  takes it as the parameter \<open>iou\<close>, from the boxes as \<open>(x, y, w, h)\<close> rows and the crop
  rectangle \<open>[left, top, w, h]\<close> to one overlap value per row.
\<close>

type_synonym iou_fun = "xywh list \<Rightarrow> xywh \<Rightarrow> rat list"

text \<open>A mode of \<^verbatim>\<open>sample_options\<close>: \<^verbatim>\<open>None\<close>, or a pair of optional bounds.\<close>

type_synonym mode = "(rat option \<times> rat option) option"

definition sample_options :: "mode list" where
  "sample_options =
     [None,
      Some (Some (7/10), None),
      Some (Some (8/10), None),
      Some (Some (85/100), None),
      Some (Some (9/10), None),
      Some (None, None)]"

text \<open>\<^verbatim>\<open>np.c_[boxes[:,:2], boxes[:,2:]-boxes[:,:2]]\<close>, one row.\<close>

definition to_xywh :: "box \<Rightarrow> xywh" where
  "to_xywh b = (bx1 b, by1 b, bx2 b - bx1 b, by2 b - by1 b)"

text \<open>A bound of a Python slice \<^verbatim>\<open>a[i:j]\<close> on an axis of length \<open>n\<close>.\<close>

definition slice_index :: "nat \<Rightarrow> int \<Rightarrow> nat" where
  "slice_index n i = (if i < 0 then nat (max 0 (int n + i)) else min n (nat i))"

text \<open>\<^verbatim>\<open>image[rect[1]:rect[3], rect[0]:rect[2], :]\<close>\<close>

definition slice_image :: "image \<Rightarrow> rect \<Rightarrow> image" where
  "slice_image im r =
     (case r of (r0, r1, r2, r3) \<Rightarrow>
        let y0 = slice_index (height im) r1; y1 = slice_index (height im) r3;
            x0 = slice_index (width im) r0; x1 = slice_index (width im) r2
        in \<lparr>height = y1 - y0, width = x1 - x0, depth = depth im,
             pixel = (\<lambda>i j. pixel im (y0 + i) (x0 + j))\<rparr>)"

text \<open>
  The mask of one box: \<^verbatim>\<open>m1 * m2\<close> with \<^verbatim>\<open>m1 = (rect[0] < cx) * (rect[1] < cy)\<close> and
  \<^verbatim>\<open>m2 = (rect[2] > cx) * (rect[3] > cy)\<close>, for the centre \<open>(cx, cy)\<close> of the box.
\<close>

definition center_in :: "rect \<Rightarrow> box \<Rightarrow> bool" where
  "center_in r b =
     (case r of (r0, r1, r2, r3) \<Rightarrow>
        let cx = (bx1 b + bx2 b) / 2; cy = (by1 b + by2 b) / 2;
            m1 = (of_int r0 < cx \<and> of_int r1 < cy);
            m2 = (of_int r2 > cx \<and> of_int r3 > cy)
        in m1 \<and> m2)"

text \<open>Boolean-mask indexing \<^verbatim>\<open>a[mask]\<close> along one axis.\<close>

definition select :: "bool list \<Rightarrow> 'a list \<Rightarrow> 'a list" where
  "select msk xs = map snd (filter fst (zip msk xs))"

text \<open>
  The clipping of a kept box to the rectangle and the shift to the crop's origin:
  \<^verbatim>\<open>maximum(box[:2], rect[:2]) - rect[:2]\<close> and \<^verbatim>\<open>minimum(box[2:], rect[2:]) - rect[:2]\<close>.
\<close>

definition clip_shift :: "rect \<Rightarrow> box \<Rightarrow> box" where
  "clip_shift r b =
     (case r of (r0, r1, r2, r3) \<Rightarrow>
        (max (bx1 b) (of_int r0) - of_int r0, max (by1 b) (of_int r1) - of_int r1,
         min (bx2 b) (of_int r2) - of_int r0, min (by2 b) (of_int r3) - of_int r1))"

text \<open>
  The test of lines 272-275: \<^verbatim>\<open>overlap.min() < min_iou and max_iou < overlap.max()\<close>.
  \<open>True\<close> means that \<open>crop\<close> returns \<^verbatim>\<open>None\<close> there. The overlap array is not empty
  (\<^verbatim>\<open>min()\<close> of an empty array raises before the test).
\<close>

definition iou_reject :: "rat list \<Rightarrow> ext \<Rightarrow> ext \<Rightarrow> bool" where
  "iou_reject overlap min_iou max_iou =
     (ext_less (Fin (Min (set overlap))) min_iou \<and> ext_less max_iou (Fin (Max (set overlap))))"

text \<open>
  The slicing and zero padding of the correspondence matrix, lines 307-314. \<open>msk\<close> is
  the padded mask (\<^verbatim>\<open>np.logical_not(mask == False)\<close>); a boolean index whose length is not
  the length of the axis raises IndexError.
\<close>

definition crop_labels :: "bool list \<Rightarrow> matrix \<Rightarrow> bool \<Rightarrow> error + matrix" where
  "crop_labels msk lab isPre =
     (let h = shape0 lab; w = shape1 lab in
      if isPre then
        (if length msk \<noteq> h then Inl IndexError
         else let kept = select msk (rows lab) in
           Inr \<lparr>shape0 = length kept + (h - length kept), shape1 = w,
                rows = kept @ replicate (h - length kept) (replicate w 0)\<rparr>)
      else
        (if length msk \<noteq> w then Inl IndexError
         else let k = length (filter id msk) in
           Inr \<lparr>shape0 = h, shape1 = k + (w - k),
                rows = map (\<lambda>r. select msk r @ replicate (w - k) 0) (rows lab)\<rparr>))"

text \<open>\<^verbatim>\<open>rect = np.array([int(left), int(top), int(left + w), int(top + h)])\<close>\<close>

definition crop_rect :: "rat \<Rightarrow> rat \<Rightarrow> rat \<Rightarrow> rat \<Rightarrow> rect" where
  "crop_rect w h left top_y = (py_int left, py_int top_y, py_int (left + w), py_int (top_y + h))"

text \<open>
  \<^verbatim>\<open>RandomSampleCrop.crop\<close>. \<open>Inr None\<close> is the return of \<^verbatim>\<open>None\<close> (the trial is
  rejected), \<open>Inl e\<close> an exception. \<open>max_object\<close> is the field of the object.
\<close>

definition crop ::
  "nat \<Rightarrow> iou_fun \<Rightarrow> image \<Rightarrow> box list option \<Rightarrow> matrix option \<Rightarrow> mode \<Rightarrow> ext \<Rightarrow> ext
     \<Rightarrow> rat \<Rightarrow> rat \<Rightarrow> rat \<Rightarrow> rat \<Rightarrow> bool \<Rightarrow> error + (image \<times> box list \<times> matrix) option" where
  "crop max_object iou im boxes_opt labels_opt md min_iou max_iou w h left top_y isPre =
     (let r = crop_rect w h left top_y in
      case boxes_opt of
        None \<Rightarrow> Inl TypeError
      | Some boxes \<Rightarrow>
          let overlap = iou (map to_xywh boxes) (left, top_y, w, h) in
          if overlap = [] then Inl ValueError
          else if iou_reject overlap min_iou max_iou then Inr None
          else
            let current_image = slice_image im r;
                msk = map (center_in r) boxes
            in if \<not> list_ex id msk then Inr None
               else
                 let current_boxes = select msk boxes in
                 if max_object < length msk then Inl ValueError
                 else
                   let msk_pad = msk @ replicate (max_object - length msk) False in
                   case labels_opt of
                     None \<Rightarrow> Inl AttributeError
                   | Some lab \<Rightarrow>
                       (case crop_labels msk_pad lab isPre of
                          Inl e \<Rightarrow> Inl e
                        | Inr current_labels \<Rightarrow>
                            Inr (Some (current_image, map (clip_shift r) current_boxes,
                                       current_labels))))"

text \<open>
  One body of the loop \<^verbatim>\<open>for _ in range(50)\<close>: \<open>Inr None\<close> is \<^verbatim>\<open>continue\<close>,
  \<open>Inr (Some s)\<close> a \<^verbatim>\<open>return\<close>. \<^verbatim>\<open>random.uniform(width - w)\<close> has one argument, so it is
  \<^verbatim>\<open>uniform(low=width - w, high=1.0)\<close>.
\<close>

definition trial ::
  "nat \<Rightarrow> iou_fun \<Rightarrow> sample \<Rightarrow> mode \<Rightarrow> ext \<Rightarrow> ext \<Rightarrow> world \<Rightarrow> (error + sample option) \<times> world" where
  "trial max_object iou s md min_iou max_iou wd0 =
     (let hgt = of_nat (height (img_pre s)); wid = of_nat (width (img_pre s));
          (w, wd1) = uniform (8/10 * wid) wid wd0;
          (h, wd2) = uniform (8/10 * hgt) hgt wd1
      in if w = 0 then (Inl ZeroDivisionError, wd2)
         else if h / w < 1/2 \<or> h / w > 2 then (Inr None, wd2)
         else
           let (left, wd3) = uniform (wid - w) 1 wd2;
               (top_y, wd4) = uniform (hgt - h) 1 wd3
           in case crop max_object iou (img_pre s) (boxes_pre s) (labels s) md min_iou max_iou
                     w h left top_y True of
                Inl e \<Rightarrow> (Inl e, wd4)
              | Inr None \<Rightarrow> (Inr None, wd4)
              | Inr (Some (im_a, bx_a, lab_a)) \<Rightarrow>
                  (case img_next s of
                     Some im_next \<Rightarrow>
                       (case crop max_object iou im_next (boxes_next s) (Some lab_a) md
                               min_iou max_iou w h left top_y False of
                          Inl e \<Rightarrow> (Inl e, wd4)
                        | Inr None \<Rightarrow> (Inr None, wd4)
                        | Inr (Some (im_b, bx_b, lab_b)) \<Rightarrow>
                            (Inr (Some \<lparr>img_pre = im_a, img_next = Some im_b,
                                        boxes_pre = Some bx_a, boxes_next = Some bx_b,
                                        labels = Some lab_b\<rparr>), wd4))
                   | None \<Rightarrow>
                       (Inr (Some \<lparr>img_pre = im_a, img_next = None, boxes_pre = Some bx_a,
                                   boxes_next = boxes_next s, labels = labels s\<rparr>), wd4)))"

text \<open>
  The loop \<^verbatim>\<open>for _ in range(50)\<close> with \<open>n\<close> bodies left; \<open>Inr None\<close> means that the
  loop ran out.
\<close>

fun trial_loop ::
  "nat \<Rightarrow> nat \<Rightarrow> iou_fun \<Rightarrow> sample \<Rightarrow> mode \<Rightarrow> ext \<Rightarrow> ext \<Rightarrow> world
     \<Rightarrow> (error + sample option) \<times> world" where
  "trial_loop 0 max_object iou s md min_iou max_iou wd = (Inr None, wd)"
| "trial_loop (Suc n) max_object iou s md min_iou max_iou wd =
     (case trial max_object iou s md min_iou max_iou (wd\<lparr>trials := trials wd + 1\<rparr>) of
        (Inr None, wd') \<Rightarrow> trial_loop n max_object iou s md min_iou max_iou wd'
      | (res, wd') \<Rightarrow> (res, wd'))"

text \<open>
  \<^verbatim>\<open>RandomSampleCrop.__call__\<close>: the loop \<^verbatim>\<open>while True\<close>. The value \<open>None\<close> of the
  model means that the call does not return.
\<close>

partial_function (option) RandomSampleCrop_call ::
  "nat \<Rightarrow> iou_fun \<Rightarrow> sample \<Rightarrow> world \<Rightarrow> ((error + sample) \<times> world) option" where
  "RandomSampleCrop_call max_object iou s wd =
     (case randint (length sample_options) wd of (k, wd1) \<Rightarrow>
        (case sample_options ! k of
           None \<Rightarrow> Some (Inr s, wd1)
         | Some (mn, mx) \<Rightarrow>
             (let min_iou = (case mn of None \<Rightarrow> NegInf | Some v \<Rightarrow> Fin v);
                  max_iou = (case mx of None \<Rightarrow> PosInf | Some v \<Rightarrow> Fin v)
              in case trial_loop 50 max_object iou s (Some (mn, mx)) min_iou max_iou wd1 of
                   (Inl e, wd2) \<Rightarrow> Some (Inl e, wd2)
                 | (Inr (Some s'), wd2) \<Rightarrow> Some (Inr s', wd2)
                 | (Inr None, wd2) \<Rightarrow> RandomSampleCrop_call max_object iou s wd2)))"

section \<open>Compose and the elementary transforms\<close>

text \<open>
  A transform takes the five-tuple and the random state. The outer \<open>option\<close> is \<open>None\<close>
  when the call does not return (only RandomSampleCrop can do that).
\<close>

type_synonym transform = "sample \<Rightarrow> world \<Rightarrow> ((error + sample) \<times> world) option"

definition returning :: "(sample \<Rightarrow> world \<Rightarrow> (error + sample) \<times> world) \<Rightarrow> transform" where
  "returning t s w = Some (t s w)"

fun Compose :: "transform list \<Rightarrow> transform" where
  "Compose [] s w = Some (Inr s, w)"
| "Compose (t # ts) s w =
     (case t s w of
        None \<Rightarrow> None
      | Some (Inl e, w') \<Rightarrow> Some (Inl e, w')
      | Some (Inr s', w') \<Rightarrow> Compose ts s' w')"

text \<open>\<^verbatim>\<open>astype(np.float32)\<close> is the identity on the rationals; on \<^verbatim>\<open>None\<close> it raises.\<close>

definition ConvertFromInts :: "sample \<Rightarrow> world \<Rightarrow> (error + sample) \<times> world" where
  "ConvertFromInts s w =
     (case img_next s of
        Some im \<Rightarrow>
          (case boxes_pre s of
             None \<Rightarrow> (Inl AttributeError, w)
           | Some bp \<Rightarrow>
               (case boxes_next s of
                  None \<Rightarrow> (Inl AttributeError, w)
                | Some bn \<Rightarrow> (Inr s, w)))
      | None \<Rightarrow>
          (case boxes_pre s of
             None \<Rightarrow> (Inl AttributeError, w)
           | Some bp \<Rightarrow> (Inr s, w)))"

definition np_clip :: "rat \<Rightarrow> rat \<Rightarrow> rat \<Rightarrow> rat" where
  "np_clip a a_min a_max = min (max a a_min) a_max"

text \<open>
  The body of \<^verbatim>\<open>move\<close> on one box: \<open>u\<close> and \<open>v\<close> are the box's entries of the two
  \<^verbatim>\<open>random.random(N)\<close> arrays, \<open>sx\<close> and \<open>sy\<close> the two signs drawn for the whole array.
\<close>

definition move_box :: "MoveBoxes \<Rightarrow> image \<Rightarrow> rat \<Rightarrow> rat \<Rightarrow> rat \<Rightarrow> rat \<Rightarrow> box \<Rightarrow> box" where
  "move_box mb im sx sy u v b =
     (let cx = (bx1 b + bx2 b) / 2; cy = (by1 b + by2 b) / 2;
          box_width = bx2 b - bx1 b;
          box_height = by2 b - by1 b;
          t_width = (bx2 b - bx1 b) * (range_mb mb * u + offset_low mb);
          t_height = (by2 b - by1 b) * (range_mb mb * v + offset_low mb);
          cx' = cx + t_width * sx;
          cy' = cy + t_height * sy
      in (np_clip (cx' - box_width / 2) 0 (of_nat (width im) - 1),
          np_clip (cy' - box_height / 2) 0 (of_nat (height im) - 1),
          np_clip (cx' + box_width / 2) 0 (of_nat (width im) - 1),
          np_clip (cy' + box_height / 2) 0 (of_nat (height im) - 1)))"

definition move ::
  "MoveBoxes \<Rightarrow> image option \<Rightarrow> box list option \<Rightarrow> world \<Rightarrow> (error + box list) \<times> world" where
  "move mb img boxes wd0 =
     (case img of
        None \<Rightarrow> (Inl AttributeError, wd0)
      | Some im \<Rightarrow>
          (case boxes of
             None \<Rightarrow> (Inl TypeError, wd0)
           | Some bs \<Rightarrow>
               let (us, wd1) = random_n (length bs) wd0;
                   (vs, wd2) = random_n (length bs) wd1;
                   (kx, wd3) = randint 2 wd2;
                   (ky, wd4) = randint 2 wd3;
                   sx = (if kx = 0 then - 1 else 1);
                   sy = (if ky = 0 then - 1 else 1)
               in (Inr (map (\<lambda>((u, v), b). move_box mb im sx sy u v b) (zip (zip us vs) bs)),
                   wd4)))"

definition MoveBoxes_call :: "MoveBoxes \<Rightarrow> sample \<Rightarrow> world \<Rightarrow> (error + sample) \<times> world" where
  "MoveBoxes_call mb s wd0 =
     (case move mb (Some (img_pre s)) (boxes_pre s) wd0 of
        (Inl e, wd1) \<Rightarrow> (Inl e, wd1)
      | (Inr bp, wd1) \<Rightarrow>
          (case boxes_next s of
             None \<Rightarrow> (Inr (s\<lparr>boxes_pre := Some bp\<rparr>), wd1)
           | Some bn \<Rightarrow>
               (case move mb (img_next s) (Some bn) wd1 of
                  (Inl e, wd2) \<Rightarrow> (Inl e, wd2)
                | (Inr bn', wd2) \<Rightarrow>
                    (Inr (s\<lparr>boxes_pre := Some bp, boxes_next := Some bn'\<rparr>), wd2))))"

text \<open>An operation on every pixel (channel vector) of a frame.\<close>

definition map_pixels :: "(rat list \<Rightarrow> rat list) \<Rightarrow> image \<Rightarrow> image" where
  "map_pixels f im = im\<lparr>pixel := (\<lambda>i j. f (pixel im i j))\<rparr>"

definition SubtractMeans :: "rat list \<Rightarrow> sample \<Rightarrow> world \<Rightarrow> (error + sample) \<times> world" where
  "SubtractMeans mean_px s w =
     (let sub = (\<lambda>im. if length mean_px = depth im then Inr (map_pixels (\<lambda>px. map (\<lambda>(a, m). a - m) (zip px mean_px)) im)
                        else if length mean_px = 1 then Inr (map_pixels (map (\<lambda>a. a - hd mean_px)) im)
                        else Inl ValueError)
      in case sub (img_pre s) of
           Inl e \<Rightarrow> (Inl e, w)
         | Inr ip \<Rightarrow>
             (case img_next s of
                None \<Rightarrow> (Inr (s\<lparr>img_pre := ip\<rparr>), w)
              | Some im \<Rightarrow>
                  (case sub im of
                     Inl e \<Rightarrow> (Inl e, w)
                   | Inr inx \<Rightarrow> (Inr (s\<lparr>img_pre := ip, img_next := Some inx\<rparr>), w))))"

text \<open>
  OpenCV is an external library: its colour conversions and its resize are parameters.
\<close>

record cv2 =
  COLOR_BGR2HSV :: "image \<Rightarrow> image"
  COLOR_HSV2BGR :: "image \<Rightarrow> image"
  resize :: "image \<Rightarrow> nat \<Rightarrow> image"

definition Resize :: "cv2 \<Rightarrow> nat \<Rightarrow> sample \<Rightarrow> world \<Rightarrow> (error + sample) \<times> world" where
  "Resize cv size_arg s w =
     (Inr (s\<lparr>img_pre := resize cv (img_pre s) size_arg,
             img_next := map_option (\<lambda>im. resize cv im size_arg) (img_next s)\<rparr>), w)"

definition RandomSaturation_call ::
  "RandomSaturation \<Rightarrow> sample \<Rightarrow> world \<Rightarrow> (error + sample) \<times> world" where
  "RandomSaturation_call rs s wd0 =
     (let (b, wd1) = randint 2 wd0 in
      if b \<noteq> 0 then
        let (alpha, wd2) = uniform (sat_lower rs) (sat_upper rs) wd1;
            scale = (\<lambda>im. if depth im \<le> 1 then Inl IndexError
                            else Inr (map_pixels (\<lambda>px. px[1 := px ! 1 * alpha]) im))
        in case scale (img_pre s) of
             Inl e \<Rightarrow> (Inl e, wd2)
           | Inr ip \<Rightarrow>
               (case img_next s of
                  None \<Rightarrow> (Inr (s\<lparr>img_pre := ip\<rparr>), wd2)
                | Some im \<Rightarrow>
                    (case scale im of
                       Inl e \<Rightarrow> (Inl e, wd2)
                     | Inr inx \<Rightarrow> (Inr (s\<lparr>img_pre := ip, img_next := Some inx\<rparr>), wd2)))
      else (Inr s, wd1))"

definition RandomHue_call :: "rat \<Rightarrow> sample \<Rightarrow> world \<Rightarrow> (error + sample) \<times> world" where
  "RandomHue_call hue_delta s wd0 =
     (let (b, wd1) = randint 2 wd0 in
      if b \<noteq> 0 then
        let (delta, wd2) = uniform (- hue_delta) hue_delta wd1;
            wrap = (\<lambda>v. let v1 = v + delta;
                              v2 = (if v1 > 360 then v1 - 360 else v1)
                          in if v2 < 0 then v2 + 360 else v2);
            shift = (\<lambda>im. if depth im = 0 then Inl IndexError
                            else Inr (map_pixels (\<lambda>px. px[0 := wrap (px ! 0)]) im))
        in case shift (img_pre s) of
             Inl e \<Rightarrow> (Inl e, wd2)
           | Inr ip \<Rightarrow>
               (case img_next s of
                  None \<Rightarrow> (Inr (s\<lparr>img_pre := ip\<rparr>), wd2)
                | Some im \<Rightarrow>
                    (case shift im of
                       Inl e \<Rightarrow> (Inl e, wd2)
                     | Inr inx \<Rightarrow> (Inr (s\<lparr>img_pre := ip, img_next := Some inx\<rparr>), wd2)))
      else (Inr s, wd1))"

text \<open>\<^verbatim>\<open>SwapChannels\<close>: \<^verbatim>\<open>image[:, :, self.swaps]\<close>.\<close>

definition SwapChannels :: "nat list \<Rightarrow> image \<Rightarrow> error + image" where
  "SwapChannels swaps im =
     (if list_all (\<lambda>k. k < depth im) swaps
      then Inr (im\<lparr>depth := length swaps, pixel := (\<lambda>i j. map (\<lambda>k. pixel im i j ! k) swaps)\<rparr>)
      else Inl IndexError)"

definition perms :: "nat list list" where
  "perms = [[0, 1, 2], [0, 2, 1], [1, 0, 2], [1, 2, 0], [2, 0, 1], [2, 1, 0]]"

definition RandomLightingNoise :: "sample \<Rightarrow> world \<Rightarrow> (error + sample) \<times> world" where
  "RandomLightingNoise s wd0 =
     (let (b, wd1) = randint 2 wd0 in
      if b \<noteq> 0 then
        let (k, wd2) = randint (length perms) wd1;
            shuffle = SwapChannels (perms ! k)
        in case shuffle (img_pre s) of
             Inl e \<Rightarrow> (Inl e, wd2)
           | Inr ip \<Rightarrow>
               (case img_next s of
                  None \<Rightarrow> (Inr (s\<lparr>img_pre := ip\<rparr>), wd2)
                | Some im \<Rightarrow>
                    (case shuffle im of
                       Inl e \<Rightarrow> (Inl e, wd2)
                     | Inr inx \<Rightarrow> (Inr (s\<lparr>img_pre := ip, img_next := Some inx\<rparr>), wd2)))
      else (Inr s, wd1))"

definition ConvertColor ::
  "cv2 \<Rightarrow> string \<Rightarrow> string \<Rightarrow> sample \<Rightarrow> world \<Rightarrow> (error + sample) \<times> world" where
  "ConvertColor cv current transform_arg s w =
     (if current = ''BGR'' \<and> transform_arg = ''HSV'' then
        (Inr (s\<lparr>img_pre := COLOR_BGR2HSV cv (img_pre s),
                img_next := map_option (COLOR_BGR2HSV cv) (img_next s)\<rparr>), w)
      else if current = ''HSV'' \<and> transform_arg = ''BGR'' then
        (Inr (s\<lparr>img_pre := COLOR_HSV2BGR cv (img_pre s),
                img_next := map_option (COLOR_HSV2BGR cv) (img_next s)\<rparr>), w)
      else (Inl NotImplementedError, w))"

definition RandomContrast_call ::
  "RandomContrast \<Rightarrow> sample \<Rightarrow> world \<Rightarrow> (error + sample) \<times> world" where
  "RandomContrast_call rc s wd0 =
     (let (b, wd1) = randint 2 wd0 in
      if b \<noteq> 0 then
        let (alpha, wd2) = uniform (con_lower rc) (con_upper rc) wd1 in
        (Inr (s\<lparr>img_pre := map_pixels (map (\<lambda>v. v * alpha)) (img_pre s),
                img_next := map_option (map_pixels (map (\<lambda>v. v * alpha))) (img_next s)\<rparr>), wd2)
      else (Inr s, wd1))"

definition RandomBrightness_call :: "rat \<Rightarrow> sample \<Rightarrow> world \<Rightarrow> (error + sample) \<times> world" where
  "RandomBrightness_call brightness_delta s wd0 =
     (let (b, wd1) = randint 2 wd0 in
      if b \<noteq> 0 then
        let (delta, wd2) = uniform (- brightness_delta) brightness_delta wd1 in
        (Inr (s\<lparr>img_pre := map_pixels (map (\<lambda>v. v + delta)) (img_pre s),
                img_next := map_option (map_pixels (map (\<lambda>v. v + delta))) (img_next s)\<rparr>), wd2)
      else (Inr s, wd1))"

section \<open>PhotometricDistort\<close>

record PhotometricDistort =
  pd :: "transform list"
  rand_brightness :: rat
  rand_light_noise :: "sample \<Rightarrow> world \<Rightarrow> (error + sample) \<times> world"

text \<open>
  \<^verbatim>\<open>PhotometricDistort.__init__\<close>; \<^verbatim>\<open>RandomHue()\<close> and \<^verbatim>\<open>RandomBrightness()\<close> take their
  defaults 18.0 and 32. A failing constructor of a member fails the construction.
\<close>

definition PhotometricDistort_init ::
  "cv2 \<Rightarrow> rat \<Rightarrow> rat \<Rightarrow> rat \<Rightarrow> rat \<Rightarrow> error + PhotometricDistort" where
  "PhotometricDistort_init cv lower_contrast upper_constrast lower_saturation upper_saturation =
     (case RandomContrast_init lower_contrast upper_constrast of
        Inl e \<Rightarrow> Inl e
      | Inr rc \<Rightarrow>
     (case RandomSaturation_init lower_saturation upper_saturation of
        Inl e \<Rightarrow> Inl e
      | Inr rs \<Rightarrow>
     (case RandomHue_init 18 of
        Inl e \<Rightarrow> Inl e
      | Inr hue \<Rightarrow>
     (case RandomBrightness_init 32 of
        Inl e \<Rightarrow> Inl e
      | Inr br \<Rightarrow>
          Inr \<lparr>pd = [returning (RandomContrast_call rc),
                      returning (ConvertColor cv ''BGR'' ''HSV''),
                      returning (RandomSaturation_call rs),
                      returning (RandomHue_call hue),
                      returning (ConvertColor cv ''HSV'' ''BGR''),
                      returning (RandomContrast_call rc)],
               rand_brightness = br,
               rand_light_noise = RandomLightingNoise\<rparr>))))"

text \<open>
  \<^verbatim>\<open>PhotometricDistort.__call__\<close>. Its second statement is \<^verbatim>\<open>im_next = img_next.copy()\<close>,
  outside any test of \<^verbatim>\<open>img_next\<close>.
\<close>

definition PhotometricDistort_call :: "PhotometricDistort \<Rightarrow> transform" where
  "PhotometricDistort_call pdo s wd0 =
     (let im_pre = img_pre s in
      case img_next s of
        None \<Rightarrow> Some (Inl AttributeError, wd0)
      | Some im_next \<Rightarrow>
          (case RandomBrightness_call (rand_brightness pdo)
                  (s\<lparr>img_pre := im_pre, img_next := Some im_next\<rparr>) wd0 of
             (Inl e, wd1) \<Rightarrow> Some (Inl e, wd1)
           | (Inr s1, wd1) \<Rightarrow>
               let (b, wd2) = randint 2 wd1;
                   distort = (if b \<noteq> 0 then Compose (butlast (pd pdo)) else Compose (tl (pd pdo)))
               in case distort s1 wd2 of
                    None \<Rightarrow> None
                  | Some (Inl e, wd3) \<Rightarrow> Some (Inl e, wd3)
                  | Some (Inr s2, wd3) \<Rightarrow> Some (rand_light_noise pdo s2 wd3)))"

section \<open>Expand and RandomMirror\<close>

record Expand =
  mean :: "rat list"
  max_expand :: rat

text \<open>
  \<^verbatim>\<open>Expand.expand\<close>: a canvas of \<^verbatim>\<open>int(height * ratio)\<close> x \<^verbatim>\<open>int(width * ratio)\<close> filled with
  the mean, and the assignment of the frame to the window
  \<^verbatim>\<open>[int(top):int(top + height), int(left):int(left + width)]\<close>, which raises unless the
  frame broadcasts to the window.
\<close>

definition expand ::
  "Expand \<Rightarrow> image \<Rightarrow> nat \<Rightarrow> nat \<Rightarrow> nat \<Rightarrow> rat \<Rightarrow> rat \<Rightarrow> rat \<Rightarrow> error + image" where
  "expand ex im hgt wid dep ratio left top_y =
     (let eh = py_int (of_nat hgt * ratio); ew = py_int (of_nat wid * ratio) in
      if eh < 0 \<or> ew < 0 then Inl ValueError
      else if length (mean ex) \<noteq> dep \<and> length (mean ex) \<noteq> 1 then Inl ValueError
      else
        let y0 = slice_index (nat eh) (py_int top_y);
            y1 = slice_index (nat eh) (py_int (top_y + of_nat hgt));
            x0 = slice_index (nat ew) (py_int left);
            x1 = slice_index (nat ew) (py_int (left + of_nat wid));
            fill = (if length (mean ex) = dep then mean ex else replicate dep (hd (mean ex)))
        in if (height im = y1 - y0 \<or> height im = 1) \<and> (width im = x1 - x0 \<or> width im = 1)
              \<and> (depth im = dep \<or> depth im = 1)
           then Inr \<lparr>height = nat eh, width = nat ew, depth = dep,
                     pixel = (\<lambda>i j.
                       if y0 \<le> i \<and> i < y1 \<and> x0 \<le> j \<and> j < x1
                       then let px = pixel im (if height im = y1 - y0 then i - y0 else 0)
                                       (if width im = x1 - x0 then j - x0 else 0)
                            in if depth im = dep then px else replicate dep (hd px)
                       else fill)\<rparr>
           else Inl ValueError)"

text \<open>\<^verbatim>\<open>boxes[:, :2] += (int(left), int(top)); boxes[:, 2:] += (int(left), int(top))\<close>\<close>

definition shift_box :: "int \<Rightarrow> int \<Rightarrow> box \<Rightarrow> box" where
  "shift_box dx dy b = (bx1 b + of_int dx, by1 b + of_int dy, bx2 b + of_int dx, by2 b + of_int dy)"

definition Expand_call :: "Expand \<Rightarrow> sample \<Rightarrow> world \<Rightarrow> (error + sample) \<times> world" where
  "Expand_call ex s wd0 =
     (let (b, wd1) = randint 2 wd0 in
      if b \<noteq> 0 then (Inr s, wd1)
      else
        let hgt = height (img_pre s); wid = width (img_pre s); dep = depth (img_pre s);
            (ratio, wd2) = uniform 1 (max_expand ex) wd1;
            (left, wd3) = uniform 0 (of_nat wid * ratio - of_nat wid) wd2;
            (top_y, wd4) = uniform 0 (of_nat hgt * ratio - of_nat hgt) wd3
        in case expand ex (img_pre s) hgt wid dep ratio left top_y of
             Inl e \<Rightarrow> (Inl e, wd4)
           | Inr ip \<Rightarrow>
               (case boxes_pre s of
                  None \<Rightarrow> (Inl AttributeError, wd4)
                | Some bp \<Rightarrow>
                    let bp' = map (shift_box (py_int left) (py_int top_y)) bp in
                    (case img_next s of
                       None \<Rightarrow> (Inr (s\<lparr>img_pre := ip, boxes_pre := Some bp'\<rparr>), wd4)
                     | Some im \<Rightarrow>
                         (case expand ex im hgt wid dep ratio left top_y of
                            Inl e \<Rightarrow> (Inl e, wd4)
                          | Inr inx \<Rightarrow>
                              (case boxes_next s of
                                 None \<Rightarrow> (Inl AttributeError, wd4)
                               | Some bn \<Rightarrow>
                                   (Inr (s\<lparr>img_pre := ip, img_next := Some inx,
                                           boxes_pre := Some bp',
                                           boxes_next :=
                                             Some (map (shift_box (py_int left) (py_int top_y)) bn)\<rparr>),
                                    wd4))))))"

text \<open>\<^verbatim>\<open>RandomMirror.mirror\<close>: the columns reversed, and \<^verbatim>\<open>x = width - x\<close> on both x columns.\<close>

definition mirror_box :: "nat \<Rightarrow> box \<Rightarrow> box" where
  "mirror_box wid b = (of_nat wid - bx1 b, by1 b, of_nat wid - bx2 b, by2 b)"

definition mirror :: "image \<Rightarrow> box list option \<Rightarrow> error + (image \<times> box list)" where
  "mirror im boxes =
     (let wid = width im;
          im' = im\<lparr>pixel := (\<lambda>i j. pixel im i (wid - 1 - j))\<rparr>
      in case boxes of
           None \<Rightarrow> Inl AttributeError
         | Some bs \<Rightarrow> Inr (im', map (mirror_box wid) bs))"

definition RandomMirror_call :: "sample \<Rightarrow> world \<Rightarrow> (error + sample) \<times> world" where
  "RandomMirror_call s wd0 =
     (let (b, wd1) = randint 2 wd0 in
      if b \<noteq> 0 then
        (case mirror (img_pre s) (boxes_pre s) of
           Inl e \<Rightarrow> (Inl e, wd1)
         | Inr (ip, bp) \<Rightarrow>
             (case img_next s of
                None \<Rightarrow> (Inr (s\<lparr>img_pre := ip, boxes_pre := Some bp\<rparr>), wd1)
              | Some im \<Rightarrow>
                  (case mirror im (boxes_next s) of
                     Inl e \<Rightarrow> (Inl e, wd1)
                   | Inr (inx, bn) \<Rightarrow>
                       (Inr (s\<lparr>img_pre := ip, img_next := Some inx, boxes_pre := Some bp,
                               boxes_next := Some bn\<rparr>), wd1))))
      else (Inr s, wd1))"

section \<open>ResizeShuffleBoxes\<close>

text \<open>A box row after padding: its entries may be \<^verbatim>\<open>np.inf\<close>.\<close>

type_synonym ebox = "ext \<times> ext \<times> ext \<times> ext"

definition fin_box :: "box \<Rightarrow> ebox" where
  "fin_box b = (Fin (bx1 b), Fin (by1 b), Fin (bx2 b), Fin (by2 b))"

definition inf_box :: ebox where
  "inf_box = (PosInf, PosInf, PosInf, PosInf)"

text \<open>The returned tuple: the box entries are the lists \<^verbatim>\<open>[boxes, mask]\<close>.\<close>

record shuffled =
  s_img_pre :: image
  s_img_next :: "image option"
  s_boxes_pre :: "ebox list \<times> bool list"
  s_boxes_next :: "ebox list option \<times> bool list option"
  s_labels :: "matrix option"

text \<open>
  \<^verbatim>\<open>resize_f\<close>: the number of boxes and the box set stacked on
  \<^verbatim>\<open>max_object - len(boxes)\<close> rows of \<^verbatim>\<open>np.inf\<close> (\<^verbatim>\<open>np.full\<close> raises on a negative size).
\<close>

definition resize_f :: "nat \<Rightarrow> box list option \<Rightarrow> error + nat \<times> ebox list" where
  "resize_f max_object boxes =
     (case boxes of
        None \<Rightarrow> Inl AttributeError
      | Some bs \<Rightarrow>
          if max_object < length bs then Inl ValueError
          else Inr (length bs, map fin_box bs @ replicate (max_object - length bs) inf_box))"

text \<open>Indexing with an index array: \<^verbatim>\<open>a[indexes, :]\<close> and \<^verbatim>\<open>a[:, indexes]\<close>.\<close>

definition take_rows :: "nat list \<Rightarrow> 'a list \<Rightarrow> error + 'a list" where
  "take_rows idx xs =
     (if list_all (\<lambda>i. i < length xs) idx then Inr (map ((!) xs) idx) else Inl IndexError)"

definition index_rows :: "nat list \<Rightarrow> matrix \<Rightarrow> error + matrix" where
  "index_rows idx m =
     (if list_all (\<lambda>i. i < shape0 m) idx
      then Inr \<lparr>shape0 = length idx, shape1 = shape1 m, rows = map ((!) (rows m)) idx\<rparr>
      else Inl IndexError)"

definition index_cols :: "nat list \<Rightarrow> matrix \<Rightarrow> error + matrix" where
  "index_cols idx m =
     (if list_all (\<lambda>j. j < shape1 m) idx
      then Inr \<lparr>shape0 = shape0 m, shape1 = length idx,
                rows = map (\<lambda>r. map ((!) r) idx) (rows m)\<rparr>
      else Inl IndexError)"

text \<open>\<^verbatim>\<open>labels.sum(1)\<close> and \<^verbatim>\<open>labels.sum(0)\<close>.\<close>

definition row_sums :: "matrix \<Rightarrow> rat list" where
  "row_sums m = map sum_list (rows m)"

definition col_sums :: "matrix \<Rightarrow> rat list" where
  "col_sums m = map (\<lambda>j. sum_list (map (\<lambda>r. r ! j) (rows m))) [0..<shape1 m]"

text \<open>
  \<^verbatim>\<open>fo = (sums == 0).astype(float); fo[np.logical_not(mask)] = 0.0\<close>. The two arrays have
  the same length in every call (the length of the index array).
\<close>

definition false_object :: "rat list \<Rightarrow> bool list \<Rightarrow> rat list" where
  "false_object totals msk =
     map (\<lambda>(t, m). if m then (if t = 0 then 1 else 0) else 0) (zip totals msk)"

text \<open>
  Lines 520-532, "add false object label": the no-match column is computed and appended
  first (\<open>lab3\<close> is N x (N+1)); the no-match row was computed from the matrix before
  that, gets the entry \<^verbatim>\<open>[0]\<close> appended, and is appended as the last row.
\<close>

definition add_false_object :: "matrix \<Rightarrow> bool list \<Rightarrow> bool list \<Rightarrow> matrix" where
  "add_false_object lab2 mask_pre mask_next =
     (let false_object_pre = false_object (row_sums lab2) mask_pre;
          false_object_next = false_object (col_sums lab2) mask_next;
          lab3 = \<lparr>shape0 = shape0 lab2, shape1 = shape1 lab2 + 1,
                  rows = map (\<lambda>(r, f). r @ [f]) (zip (rows lab2) false_object_pre)\<rparr>;
          last_row = false_object_next @ [0]
      in \<lparr>shape0 = shape0 lab3 + 1, shape1 = shape1 lab3, rows = rows lab3 @ [last_row]\<rparr>)"

definition ResizeShuffleBoxes :: "nat \<Rightarrow> sample \<Rightarrow> world \<Rightarrow> (error + shuffled) \<times> world" where
  "ResizeShuffleBoxes max_object s wd0 =
     (case resize_f max_object (boxes_pre s) of
        Inl e \<Rightarrow> (Inl e, wd0)
      | Inr (size_pre, padded_pre) \<Rightarrow>
     (let (indexes_pre, wd1) = shuffle_arange max_object wd0 in
      case take_rows indexes_pre padded_pre of
        Inl e \<Rightarrow> (Inl e, wd1)
      | Inr bp \<Rightarrow>
     (let mask_pre = map (\<lambda>i. i < size_pre) indexes_pre in
      case img_next s of
        None \<Rightarrow>
          (Inr \<lparr>s_img_pre = img_pre s, s_img_next = None,
                s_boxes_pre = (bp, mask_pre @ [True]),
                s_boxes_next = (map_option (map fin_box) (boxes_next s), None),
                s_labels = labels s\<rparr>, wd1)
      | Some im_next \<Rightarrow>
     (case resize_f max_object (boxes_next s) of
        Inl e \<Rightarrow> (Inl e, wd1)
      | Inr (size_next, padded_next) \<Rightarrow>
     (let (indexes_next, wd2) = shuffle_arange max_object wd1 in
      case take_rows indexes_next padded_next of
        Inl e \<Rightarrow> (Inl e, wd2)
      | Inr bn \<Rightarrow>
     (let mask_next = map (\<lambda>i. i < size_next) indexes_next in
      case labels s of
        None \<Rightarrow> (Inl TypeError, wd2)
      | Some lab \<Rightarrow>
     (case index_rows indexes_pre lab of
        Inl e \<Rightarrow> (Inl e, wd2)
      | Inr lab1 \<Rightarrow>
     (case index_cols indexes_next lab1 of
        Inl e \<Rightarrow> (Inl e, wd2)
      | Inr lab2 \<Rightarrow>
        (Inr \<lparr>s_img_pre = img_pre s, s_img_next = Some im_next,
              s_boxes_pre = (bp, mask_pre @ [True]),
              s_boxes_next = (Some bn, Some (mask_next @ [True])),
              s_labels = Some (add_false_object lab2 mask_pre mask_next)\<rparr>, wd2)))))))))"

section \<open>DANAugmentation, type 'train'\<close>

record config =
  lower_offset :: rat
  upper_offset :: rat
  lower_contrast :: rat
  upper_constrast :: rat
  lower_saturation :: rat
  upper_saturation :: rat
  mean_pixel :: "rat list"
  cfg_max_expand :: rat
  image_size :: nat
  cfg_max_object :: nat

text \<open>
  The chain of \<^verbatim>\<open>type == 'train'\<close>. Its last two members FormatBoxes and ToTensor work
  on the lists \<^verbatim>\<open>[boxes, mask]\<close> and produce torch tensors; they are the parameter
  \<open>finish\<close>. \<open>Inl e\<close> is a constructor that raises.
\<close>

definition DANAugmentation_train ::
  "cv2 \<Rightarrow> iou_fun \<Rightarrow> config \<Rightarrow> (shuffled \<Rightarrow> error + 'r)
     \<Rightarrow> error + (sample \<Rightarrow> world \<Rightarrow> ((error + 'r) \<times> world) option)" where
  "DANAugmentation_train cv iou cfg finish =
     (case MoveBoxes_init (lower_offset cfg) (upper_offset cfg) of
        Inl e \<Rightarrow> Inl e
      | Inr mb \<Rightarrow>
     (case PhotometricDistort_init cv (lower_contrast cfg) (upper_constrast cfg)
             (lower_saturation cfg) (upper_saturation cfg) of
        Inl e \<Rightarrow> Inl e
      | Inr pdo \<Rightarrow>
          Inr (\<lambda>s w.
            case Compose
                   [returning ConvertFromInts,
                    returning (MoveBoxes_call mb),
                    PhotometricDistort_call pdo,
                    returning (Expand_call \<lparr>mean = mean_pixel cfg, max_expand = cfg_max_expand cfg\<rparr>),
                    RandomSampleCrop_call (cfg_max_object cfg) iou,
                    returning RandomMirror_call,
                    returning (\<lambda>s w. (ToPercentCoords s, w)),
                    returning (Resize cv (image_size cfg)),
                    returning (SubtractMeans (mean_pixel cfg))] s w of
              None \<Rightarrow> None
            | Some (Inl e, w') \<Rightarrow> Some (Inl e, w')
            | Some (Inr s', w') \<Rightarrow>
                (case ResizeShuffleBoxes (cfg_max_object cfg) s' w' of
                   (Inl e, w'') \<Rightarrow> Some (Inl e, w'')
                 | (Inr sh, w'') \<Rightarrow> Some (finish sh, w'')))))"

section \<open>Valid box sets\<close>

text \<open>
  The invariant of the spec's data model with closed upper bounds: a box is ordered and
  lies in \<open>[0, W] x [0, H]\<close>. \<open>in_frame\<close> drops the order of the two x coordinates.
\<close>

definition valid_box :: "nat \<Rightarrow> nat \<Rightarrow> box \<Rightarrow> bool" where
  "valid_box W H b =
     (0 \<le> bx1 b \<and> bx1 b \<le> bx2 b \<and> bx2 b \<le> of_nat W
      \<and> 0 \<le> by1 b \<and> by1 b \<le> by2 b \<and> by2 b \<le> of_nat H)"

text \<open>
  The invariant as the spec words it: ordered, and inside \<open>[0, W) x [0, H)\<close>.
\<close>

definition half_open_box :: "nat \<Rightarrow> nat \<Rightarrow> box \<Rightarrow> bool" where
  "half_open_box W H b =
     (bx1 b \<le> bx2 b \<and> by1 b \<le> by2 b
      \<and> 0 \<le> bx1 b \<and> bx1 b < of_nat W \<and> 0 \<le> bx2 b \<and> bx2 b < of_nat W
      \<and> 0 \<le> by1 b \<and> by1 b < of_nat H \<and> 0 \<le> by2 b \<and> by2 b < of_nat H)"

definition in_frame :: "nat \<Rightarrow> nat \<Rightarrow> box \<Rightarrow> bool" where
  "in_frame W H b =
     (0 \<le> bx1 b \<and> bx1 b \<le> of_nat W \<and> 0 \<le> bx2 b \<and> bx2 b \<le> of_nat W
      \<and> 0 \<le> by1 b \<and> by1 b \<le> by2 b \<and> by2 b \<le> of_nat H)"

text \<open>
  A sample is valid when the boxes of each frame are valid in that frame and the two
  frames of a pair have the same height and width.
\<close>

definition boxes_ok :: "(nat \<Rightarrow> nat \<Rightarrow> box \<Rightarrow> bool) \<Rightarrow> image \<Rightarrow> box list option \<Rightarrow> bool" where
  "boxes_ok ok im boxes =
     (case boxes of None \<Rightarrow> True | Some bs \<Rightarrow> list_all (ok (width im) (height im)) bs)"

definition sample_ok :: "(nat \<Rightarrow> nat \<Rightarrow> box \<Rightarrow> bool) \<Rightarrow> sample \<Rightarrow> bool" where
  "sample_ok ok s =
     (boxes_ok ok (img_pre s) (boxes_pre s)
      \<and> (case img_next s of
            None \<Rightarrow> True
          | Some im \<Rightarrow> height im = height (img_pre s) \<and> width im = width (img_pre s)
                       \<and> boxes_ok ok im (boxes_next s)))"

text \<open>Every unit draw of the random state lies in the unit interval.\<close>

definition unit_draws :: "world \<Rightarrow> bool" where
  "unit_draws w = pred_stream (\<lambda>u. 0 \<le> u \<and> u \<le> 1) (unit_src w)"

text \<open>A member of a chain of Expand and RandomSampleCrop transforms.\<close>

definition expand_or_crop :: "transform \<Rightarrow> bool" where
  "expand_or_crop t =
     ((\<exists>ex. 1 \<le> max_expand ex \<and> t = returning (Expand_call ex))
      \<or> (\<exists>max_object iou. t = RandomSampleCrop_call max_object iou))"

section \<open>Concrete inputs\<close>

text \<open>
  Modelled from the spec: \<^verbatim>\<open>libmot.utils.iou\<close> is missing from the sources; the spec
  calls it the box-overlap (IoU) computation between a set of boxes and a single
  rectangle, both as \<open>(x, y, w, h)\<close>. This intersection over union stands for it where a
  theorem evaluates \<open>crop\<close> on concrete boxes; the general theorems hold for every \<open>iou\<close>.
\<close>

definition iou_one :: "xywh \<Rightarrow> xywh \<Rightarrow> rat" where
  "iou_one b c =
     (case b of (x, y, w, h) \<Rightarrow> case c of (cx, cy, cw, ch) \<Rightarrow>
        let iw = max 0 (min (x + w) (cx + cw) - max x cx);
            ih = max 0 (min (y + h) (cy + ch) - max y cy);
            inter = iw * ih
        in inter / (w * h + cw * ch - inter))"

definition iou_model :: iou_fun where
  "iou_model bs c = map (\<lambda>b. iou_one b c) bs"

text \<open>A 100 x 100 frame of three channels, and the 2 x 2 identity correspondence matrix.\<close>

definition frame100 :: image where
  "frame100 = \<lparr>height = 100, width = 100, depth = 3, pixel = (\<lambda>i j. [0, 0, 0])\<rparr>"

definition eye2 :: matrix where
  "eye2 = \<lparr>shape0 = 2, shape1 = 2, rows = [[1, 0], [0, 1]]\<rparr>"

text \<open>
  A random state whose draws are constant; every shuffle draws the permutation [1, 0].
\<close>

definition world1 :: world where
  "world1 = \<lparr>int_src = sconst 0, unit_src = sconst 0, perm_src = sconst [1, 0], trials = 0\<rparr>"

text \<open>
  A paired sample of capacity 2: frame A has two boxes, frame B two, and the first box of
  frame A corresponds to the second box of frame B.
\<close>

definition pair2 :: sample where
  "pair2 = \<lparr>img_pre = frame100, img_next = Some frame100,
     boxes_pre = Some [(10, 10, 30, 30), (60, 20, 70, 40)],
     boxes_next = Some [(50, 50, 80, 80), (12, 12, 32, 32)],
     labels = Some \<lparr>shape0 = 2, shape1 = 2, rows = [[0, 1], [0, 0]]\<rparr>\<rparr>"

definition shuffled2 :: shuffled where
  "shuffled2 = \<lparr>s_img_pre = frame100, s_img_next = Some frame100,
     s_boxes_pre = ([fin_box (60, 20, 70, 40), fin_box (10, 10, 30, 30)], [True, True, True]),
     s_boxes_next = (Some [fin_box (12, 12, 32, 32), fin_box (50, 50, 80, 80)],
                     Some [True, True, True]),
     s_labels = Some \<lparr>shape0 = 3, shape1 = 3, rows = [[0, 0, 1], [1, 0, 0], [0, 1, 0]]\<rparr>\<rparr>"

text \<open>A single-frame sample, a configuration, and stand-ins for the OpenCV functions.\<close>

definition single1 :: sample where
  "single1 = \<lparr>img_pre = frame100, img_next = None,
     boxes_pre = Some [(10, 10, 30, 30)], boxes_next = None, labels = None\<rparr>"

definition cfg1 :: config where
  "cfg1 = \<lparr>lower_offset = 0, upper_offset = 1 / 5, lower_contrast = 7 / 10,
     upper_constrast = 3 / 2, lower_saturation = 7 / 10, upper_saturation = 3 / 2,
     mean_pixel = [104, 117, 123], cfg_max_expand = 6 / 5, image_size = 900,
     cfg_max_object = 80\<rparr>"

definition cv_plain :: cv2 where
  "cv_plain = \<lparr>COLOR_BGR2HSV = (\<lambda>im. im), COLOR_HSV2BGR = (\<lambda>im. im),
     resize = (\<lambda>im n. im\<lparr>height := n, width := n\<rparr>)\<rparr>"


text \<open>
  Two random states with constant unit draws: \<open>world7\<close> draws the mode (0.7, None) seven
  times and \<^verbatim>\<open>None\<close> from then on; \<open>world_twos\<close> draws the mode (0.8, None) for ever.
\<close>

definition world7 :: world where
  "world7 = \<lparr>int_src = 1 ## 1 ## 1 ## 1 ## 1 ## 1 ## 1 ## sconst 0, unit_src = sconst 0,
     perm_src = sconst [1, 0], trials = 0\<rparr>"

definition world_twos :: world where
  "world_twos = \<lparr>int_src = sconst 2, unit_src = sconst 0, perm_src = sconst [1, 0], trials = 0\<rparr>"

text \<open>
  A random state that expands (first integer draw 0), then draws the mode (None, None),
  with every unit draw 1/2; and an Expand object.
\<close>

definition world_half :: world where
  "world_half = \<lparr>int_src = 0 ## sconst 5, unit_src = sconst (1 / 2), perm_src = sconst [1, 0],
     trials = 0\<rparr>"

definition expand1 :: Expand where
  "expand1 = \<lparr>mean = [104, 117, 123], max_expand = 6 / 5\<rparr>"

text \<open>
  A random state that draws the mode (None, None) and then \<^verbatim>\<open>None\<close>, with every unit
  draw 0, and the sample that the first trial of RandomSampleCrop makes of \<open>pair2\<close> in
  it: the rectangle is (20, 20, 100, 100), and the first box of frame A, whose centre
  (20, 20) lies on its edge, is dropped.
\<close>

definition world_crop :: world where
  "world_crop = \<lparr>int_src = 5 ## sconst 0, unit_src = sconst 0, perm_src = sconst [1, 0],
     trials = 0\<rparr>"

definition cropped2 :: sample where
  "cropped2 = \<lparr>img_pre = slice_image frame100 (20, 20, 100, 100),
     img_next = Some (slice_image frame100 (20, 20, 100, 100)),
     boxes_pre = Some [(40, 0, 50, 20)],
     boxes_next = Some [(30, 30, 60, 60), (0, 0, 12, 12)],
     labels = Some \<lparr>shape0 = 2, shape1 = 2, rows = [[0, 0], [0, 0]]\<rparr>\<rparr>"

section \<open>Properties\<close>

lemma select_map: "select (map P xs) xs = filter P xs"
  by (induction xs) (simp_all add: select_def)

lemma select_Nil: "select [] xs = []"
  by (simp add: select_def)

lemma select_Cons: "select (m # ms) (x # xs) = (if m then x # select ms xs else select ms xs)"
  by (simp add: select_def)

lemma select_all_False: "select (replicate k False) xs = []"
proof (induction k arbitrary: xs)
  case 0
  show ?case by (simp add: select_def)
next
  case (Suc k)
  show ?case
  proof (cases xs)
    case Nil
    then show ?thesis by (simp add: select_def)
  next
    case (Cons y ys)
    with Suc show ?thesis by (simp add: select_Cons)
  qed
qed

lemma select_pad: "select (m @ replicate k False) xs = select m xs"
proof (induction m arbitrary: xs)
  case Nil
  show ?case by (simp add: select_all_False select_Nil)
next
  case (Cons a m)
  show ?case
  proof (cases xs)
    case Nil
    then show ?thesis by (simp add: select_def)
  next
    case (Cons y ys)
    with Cons.IH show ?thesis by (simp add: select_Cons)
  qed
qed

lemma length_select_le: "length (select m xs) \<le> length xs"
proof -
  have "length (select m xs) \<le> length (zip m xs)"
    unfolding select_def length_map by (rule length_filter_le)
  then show ?thesis by simp
qed

lemma set_select: "set (select m xs) \<subseteq> set xs"
  by (auto simp add: select_def dest: set_zip_rightD)

lemma length_select: "length m = length xs \<Longrightarrow> length (select m xs) = length (filter id m)"
proof (induction m arbitrary: xs)
  case Nil
  then show ?case by (simp add: select_def)
next
  case (Cons a m)
  then obtain y ys where xs: "xs = y # ys" by (cases xs) auto
  with Cons show ?case by (simp add: select_Cons)
qed

lemma filter_id_pad: "filter id (m @ replicate k False) = filter id m"
  by (induction k) simp_all

lemma filter_id_map: "length (filter id (map P xs)) = length (filter P xs)"
  by (induction xs) simp_all

text \<open>
  C1: the test of lines 272-275 returns \<^verbatim>\<open>None\<close> only when both bounds fail, so a trial
  whose minimum IoU is below \<open>min_iou\<close> passes it whenever \<open>max_iou\<close> is infinite. On a
  100 x 100 frame with the box (10, 10, 30, 30), the rectangle left = top = 0, w = h = 90
  has IoU 4/81 with the box; with \<open>min_iou\<close> = 0.7 and \<open>max_iou\<close> = +inf the trial is
  accepted.
\<close>

theorem C1_accepts_low_overlap:
  "iou_model [to_xywh (10, 10, 30, 30)] (0, 0, 90, 90) = [4 / 81]
   \<and> crop 2 iou_model frame100 (Some [(10, 10, 30, 30)]) (Some eye2)
        (Some (Some (7 / 10), None)) (Fin (7 / 10)) PosInf 90 90 0 0 True
      = Inr (Some (slice_image frame100 (0, 0, 90, 90), [(10, 10, 30, 30)],
                   \<lparr>shape0 = 2, shape1 = 2, rows = [[1, 0], [0, 0]]\<rparr>))"
  by (simp add: crop_def crop_rect_def py_int_def iou_model_def iou_one_def to_xywh_def
      iou_reject_def center_in_def select_def crop_labels_def eye2_def clip_shift_def Let_def
      numeral_2_eq_2)

text \<open>
  C4, as the code has it: the boxes of an accepted trial are exactly the boxes whose
  centre lies strictly inside the integer crop rectangle (strict on all four sides),
  clipped and shifted, in their order; when no centre lies strictly inside the rectangle,
  \<open>crop\<close> returns \<^verbatim>\<open>None\<close> if the overlap array is not empty, and raises ValueError (at
  \<^verbatim>\<open>overlap.min()\<close>) if it is empty.
\<close>

theorem C4_center_keep:
  "(case crop max_object iou im (Some boxes) lab md min_iou max_iou w h left top_y isPre of
      Inr (Some (im', boxes', lab')) \<Rightarrow>
        boxes' = map (clip_shift (crop_rect w h left top_y))
                   (filter (center_in (crop_rect w h left top_y)) boxes)
    | Inr None \<Rightarrow> True
    | Inl e \<Rightarrow> True)
   \<and> (if list_ex (center_in (crop_rect w h left top_y)) boxes then True
      else crop max_object iou im (Some boxes) lab md min_iou max_iou w h left top_y isPre
           = (if iou (map to_xywh boxes) (left, top_y, w, h) = [] then Inl ValueError
              else Inr None))
   \<and> center_in (r0, r1, r2, r3) (x1, y1, x2, y2)
      = (of_int r0 < (x1 + x2) / 2 \<and> (x1 + x2) / 2 < of_int r2
         \<and> of_int r1 < (y1 + y2) / 2 \<and> (y1 + y2) / 2 < of_int r3)"
  by (auto simp add: crop_def Let_def select_map list_ex_iff center_in_def
      split: option.splits sum.splits)

text \<open>
  C4 fails on an empty box set: no centre lies inside the rectangle, and \<open>crop\<close> raises
  instead of returning \<^verbatim>\<open>None\<close>.
\<close>

theorem C4_empty_box_set_raises:
  "iou_model (map to_xywh []) (0, 0, 90, 90) = []
   \<and> list_ex (center_in (crop_rect 90 90 0 0)) [] = False
   \<and> crop 2 iou_model frame100 (Some []) (Some eye2) None NegInf PosInf 90 90 0 0 True
      = Inl ValueError"
  by (simp add: crop_def iou_model_def Let_def)

text \<open>
  C5: on an accepted trial the returned correspondence matrix has the shape of the input
  matrix; for frame A its rows are the rows of the surviving boxes followed by zero rows,
  for frame B each row keeps the entries of the surviving boxes followed by zeros.
\<close>

theorem C5_labels:
  assumes "crop max_object iou im (Some boxes) (Some lab) md min_iou max_iou w h left top_y isPre
             = Inr (Some (im', boxes', lab'))"
    and "wf_matrix lab"
  shows "shape0 lab' = shape0 lab \<and> shape1 lab' = shape1 lab \<and> wf_matrix lab'
         \<and> rows lab' =
            (let msk = map (center_in (crop_rect w h left top_y)) boxes;
                 k = length (filter (center_in (crop_rect w h left top_y)) boxes)
             in if isPre
                then select msk (rows lab) @ replicate (shape0 lab - k) (replicate (shape1 lab) 0)
                else map (\<lambda>r. select msk r @ replicate (shape1 lab - k) 0) (rows lab))"
proof -
  let ?r = "crop_rect w h left top_y"
  let ?msk = "map (center_in ?r) boxes"
  let ?pad = "?msk @ replicate (max_object - length ?msk) False"
  let ?k = "length (filter (center_in ?r) boxes)"
  from assms(1) have cl: "crop_labels ?pad lab isPre = Inr lab'"
    by (auto simp add: crop_def Let_def split: if_splits sum.splits)
  from assms(2) have len: "length (rows lab) = shape0 lab"
    and row: "\<And>r. r \<in> set (rows lab) \<Longrightarrow> length r = shape1 lab"
    by (auto simp add: wf_matrix_def list_all_iff)
  have k: "length (filter id ?pad) = ?k"
    by (simp add: filter_id_pad filter_id_map)
  show ?thesis
  proof (cases isPre)
    case True
    with cl have lp: "length ?pad = shape0 lab"
      and lab': "lab' = \<lparr>shape0 = length (select ?pad (rows lab))
                              + (shape0 lab - length (select ?pad (rows lab))),
                          shape1 = shape1 lab,
                          rows = select ?pad (rows lab)
                            @ replicate (shape0 lab - length (select ?pad (rows lab)))
                                (replicate (shape1 lab) 0)\<rparr>"
      by (auto simp add: crop_labels_def Let_def split: if_splits)
    have ks: "length (select ?pad (rows lab)) = ?k"
      using length_select [of ?pad "rows lab"] lp len k by simp
    have kle: "?k \<le> shape0 lab"
      using length_select_le [of ?pad "rows lab"] ks len by simp
    have sub: "\<And>r. r \<in> set (select ?pad (rows lab)) \<Longrightarrow> length r = shape1 lab"
      using set_select [of ?pad "rows lab"] row by blast
    have sel: "select ?pad (rows lab) = select ?msk (rows lab)"
      by (rule select_pad)
    have s0: "shape0 lab' = shape0 lab"
      unfolding lab' ks using kle by simp
    have s1: "shape1 lab' = shape1 lab"
      unfolding lab' by simp
    have ks': "length (select ?msk (rows lab)) = ?k"
      using ks sel by simp
    have rw: "rows lab' = select ?msk (rows lab) @ replicate (shape0 lab - ?k) (replicate (shape1 lab) 0)"
      unfolding lab' using ks' sel by simp
    have "length (rows lab') = shape0 lab"
      unfolding rw using ks' kle by simp
    moreover have "\<And>r. r \<in> set (rows lab') \<Longrightarrow> length r = shape1 lab"
      unfolding rw using sub sel by auto
    ultimately have "wf_matrix lab'"
      by (simp add: wf_matrix_def list_all_iff s0 s1)
    with True s0 s1 rw show ?thesis
      by (simp add: Let_def)
  next
    case False
    with cl have lp: "length ?pad = shape1 lab"
      and lab': "lab' = \<lparr>shape0 = shape0 lab,
                          shape1 = length (filter id ?pad) + (shape1 lab - length (filter id ?pad)),
                          rows = map (\<lambda>r. select ?pad r
                                   @ replicate (shape1 lab - length (filter id ?pad)) 0)
                                   (rows lab)\<rparr>"
      by (auto simp add: crop_labels_def Let_def split: if_splits)
    have kle: "?k \<le> shape1 lab"
      using length_filter_le [of id ?pad] lp k by simp
    have rl: "length (select ?pad r) = ?k" if "r \<in> set (rows lab)" for r
    proof -
      from that row lp have "length ?pad = length r" by simp
      then have "length (select ?pad r) = length (filter id ?pad)" by (rule length_select)
      with k show ?thesis by simp
    qed
    have sel: "\<And>r. select ?pad r = select ?msk r"
      by (rule select_pad)
    have s0: "shape0 lab' = shape0 lab"
      unfolding lab' by simp
    have s1: "shape1 lab' = shape1 lab"
      unfolding lab' k using kle by simp
    have rw: "rows lab' = map (\<lambda>r. select ?msk r @ replicate (shape1 lab - ?k) 0) (rows lab)"
      unfolding lab' by (simp add: select_pad filter_id_pad filter_id_map)
    have "length (rows lab') = shape0 lab"
      unfolding rw using len by simp
    moreover have "\<And>r. r \<in> set (rows lab') \<Longrightarrow> length r = shape1 lab"
      unfolding rw using rl kle by (auto simp add: select_pad)
    ultimately have "wf_matrix lab'"
      by (simp add: wf_matrix_def list_all_iff s0 s1)
    with False s0 s1 rw show ?thesis
      by (simp add: Let_def)
  qed
qed

theorem C4_center_keep_witness:
  "crop_rect 80 80 10 10 = (10, 10, 90, 90)
   \<and> filter (center_in (10, 10, 90, 90))
        [(0, 0, 20, 20), (20, 20, 40, 40), (81, 81, 99, 99), (2, 30, 8, 50)]
      = [(20, 20, 40, 40)]
   \<and> crop 4 iou_model frame100
        (Some [(0, 0, 20, 20), (20, 20, 40, 40), (81, 81, 99, 99), (2, 30, 8, 50)])
        (Some \<lparr>shape0 = 4, shape1 = 1, rows = [[1], [2], [3], [4]]\<rparr>) None
        NegInf PosInf 80 80 10 10 True
      = Inr (Some (slice_image frame100 (10, 10, 90, 90), [(10, 10, 30, 30)],
                   \<lparr>shape0 = 4, shape1 = 1, rows = [[2], [0], [0], [0]]\<rparr>))
   \<and> crop 4 iou_model frame100 (Some [(0, 0, 20, 20), (81, 81, 99, 99), (2, 30, 8, 50)])
        (Some \<lparr>shape0 = 4, shape1 = 1, rows = [[1], [2], [3], [4]]\<rparr>) None
        NegInf PosInf 80 80 10 10 True = Inr None"
proof -
  have r: "crop_rect 80 80 10 10 = (10, 10, 90, 90)"
    by (simp add: crop_rect_def py_int_def)
  have f: "filter (center_in (10, 10, 90, 90))
        [(0, 0, 20, 20), (20, 20, 40, 40), (81, 81, 99, 99), (2, 30, 8, 50)]
      = [(20, 20, 40, 40)]"
    by (simp add: center_in_def)
  have c1: "crop 4 iou_model frame100
        (Some [(0, 0, 20, 20), (20, 20, 40, 40), (81, 81, 99, 99), (2, 30, 8, 50)])
        (Some \<lparr>shape0 = 4, shape1 = 1, rows = [[1], [2], [3], [4]]\<rparr>) None
        NegInf PosInf 80 80 10 10 True
      = Inr (Some (slice_image frame100 (10, 10, 90, 90), [(10, 10, 30, 30)],
                   \<lparr>shape0 = 4, shape1 = 1, rows = [[2], [0], [0], [0]]\<rparr>))"
    by (simp add: crop_def r iou_model_def iou_reject_def center_in_def select_def
        crop_labels_def clip_shift_def Let_def numeral_3_eq_3)
  have n: "iou_model (map to_xywh [(0, 0, 20, 20), (81, 81, 99, 99), (2, 30, 8, 50)])
             (10, 10, 80, 80) \<noteq> []"
    by (simp add: iou_model_def)
  have e: "\<not> list_ex (center_in (crop_rect 80 80 10 10))
               [(0, 0, 20, 20), (81, 81, 99, 99), (2, 30, 8, 50)]"
    by (simp add: r center_in_def)
  from C4_center_keep [where iou = iou_model
      and boxes = "[(0, 0, 20, 20), (81, 81, 99, 99), (2, 30, 8, 50)]" and left = 10
      and top_y = 10 and w = 80 and h = 80 and max_object = 4 and im = frame100
      and lab = "Some \<lparr>shape0 = 4, shape1 = 1, rows = [[1], [2], [3], [4]]\<rparr>" and md = None
      and min_iou = NegInf and max_iou = PosInf and isPre = True] n e
  have c2: "crop 4 iou_model frame100 (Some [(0, 0, 20, 20), (81, 81, 99, 99), (2, 30, 8, 50)])
        (Some \<lparr>shape0 = 4, shape1 = 1, rows = [[1], [2], [3], [4]]\<rparr>) None
        NegInf PosInf 80 80 10 10 True = Inr None"
    by simp
  from r f c1 c2 show ?thesis by blast
qed

theorem C5_labels_witness:
  "wf_matrix eye2
   \<and> crop 2 iou_model frame100 (Some [(92, 92, 98, 98), (10, 10, 30, 30)]) (Some eye2) None
        NegInf PosInf 90 90 0 0 False
      = Inr (Some (slice_image frame100 (0, 0, 90, 90), [(10, 10, 30, 30)],
                   \<lparr>shape0 = 2, shape1 = 2, rows = [[0, 0], [1, 0]]\<rparr>))
   \<and> wf_matrix \<lparr>shape0 = 2, shape1 = 2, rows = [[0, 0], [1, 0]]\<rparr>"
proof -
  have w: "wf_matrix eye2"
    by (simp add: wf_matrix_def eye2_def)
  have r: "crop_rect 90 90 0 0 = (0, 0, 90, 90)"
    by (simp add: crop_rect_def py_int_def)
  have c: "crop 2 iou_model frame100 (Some [(92, 92, 98, 98), (10, 10, 30, 30)]) (Some eye2)
             None NegInf PosInf 90 90 0 0 False
           = Inr (Some (slice_image frame100 (0, 0, 90, 90), [(10, 10, 30, 30)],
                        \<lparr>shape0 = 2, shape1 = 2, rows = [[0, 0], [1, 0]]\<rparr>))"
    by (simp add: crop_def r iou_model_def iou_reject_def center_in_def select_def
        crop_labels_def eye2_def clip_shift_def Let_def numeral_2_eq_2)
  have "wf_matrix \<lparr>shape0 = 2, shape1 = 2, rows = [[0, 0], [1, 0]]\<rparr>"
    using C5_labels [OF c w] by blast
  with w c show ?thesis by blast
qed

lemma scale_back_percent_box:
  "0 < h \<Longrightarrow> 0 < w \<Longrightarrow> scale_back h w (percent_box h w b) = b"
  by (cases b) (simp add: scale_back_def percent_box_def)

text \<open>
  C8: on a frame of positive width and height, ToPercentCoords succeeds on every sample
  that carries a frame-A box set, and multiplying the x coordinates of its output by the
  width and the y coordinates by the height gives back the original coordinates, for the
  frame-A box set and for the frame-B box set (when present). Arithmetic is exact
  (rationals).
\<close>

theorem C8_percent_round_trip:
  assumes "0 < height (img_pre s)" and "0 < width (img_pre s)"
    and "boxes_pre s = Some bp"
  shows "\<exists>s'. ToPercentCoords s = Inr s'
           \<and> map_option (map (scale_back (height (img_pre s)) (width (img_pre s)))) (boxes_pre s')
               = boxes_pre s
           \<and> map_option (map (scale_back (height (img_pre s)) (width (img_pre s)))) (boxes_next s')
               = boxes_next s
           \<and> img_pre s' = img_pre s \<and> img_next s' = img_next s \<and> labels s' = labels s"
  using assms
  by (cases "boxes_next s")
     (simp_all add: ToPercentCoords_def Let_def scale_back_percent_box o_def)

theorem C8_percent_round_trip_witness:
  "ToPercentCoords \<lparr>img_pre = frame100, img_next = Some frame100,
       boxes_pre = Some [(10, 10, 30, 30)], boxes_next = Some [(50, 50, 80, 80)],
       labels = None\<rparr>
   = Inr \<lparr>img_pre = frame100, img_next = Some frame100,
       boxes_pre = Some [(1 / 10, 1 / 10, 3 / 10, 3 / 10)],
       boxes_next = Some [(1 / 2, 1 / 2, 4 / 5, 4 / 5)], labels = None\<rparr>
   \<and> map (scale_back 100 100) [(1 / 10, 1 / 10, 3 / 10, 3 / 10)] = [(10, 10, 30, 30)]
   \<and> map (scale_back 100 100) [(1 / 2, 1 / 2, 4 / 5, 4 / 5)] = [(50, 50, 80, 80)]"
proof -
  let ?s = "\<lparr>img_pre = frame100, img_next = Some frame100,
       boxes_pre = Some [(10, 10, 30, 30)], boxes_next = Some [(50, 50, 80, 80)],
       labels = None\<rparr>"
  have h: "0 < height (img_pre ?s)" and w: "0 < width (img_pre ?s)"
    by (simp_all add: frame100_def)
  have b: "boxes_pre ?s = Some [(10, 10, 30, 30)]"
    by simp
  have e: "ToPercentCoords ?s = Inr \<lparr>img_pre = frame100, img_next = Some frame100,
       boxes_pre = Some [(1 / 10, 1 / 10, 3 / 10, 3 / 10)],
       boxes_next = Some [(1 / 2, 1 / 2, 4 / 5, 4 / 5)], labels = None\<rparr>"
    by (simp add: ToPercentCoords_def percent_box_def frame100_def)
  from C8_percent_round_trip [OF h w b] e show ?thesis
    by (simp add: frame100_def)
qed

text \<open>
  C9, as the code has it: RandomSaturation, RandomContrast and RandomBrightness fail at
  construction exactly on an invalid range (upper below lower, a negative lower bound, a
  delta outside [0, 255]); MoveBoxes never fails at construction: it clamps
  \<open>offset_low\<close> to \<open>max(offset_low, 0)\<close> and \<open>offset_high\<close> to
  \<open>max(offset_low, offset_high)\<close>.
\<close>

theorem C9_range_constructors:
  "RandomSaturation_init lower upper =
     (if upper < lower \<or> lower < 0 then Inl AssertionError
      else Inr \<lparr>sat_lower = lower, sat_upper = upper\<rparr>)
   \<and> RandomContrast_init lower upper =
     (if upper < lower \<or> lower < 0 then Inl AssertionError
      else Inr \<lparr>con_lower = lower, con_upper = upper\<rparr>)
   \<and> RandomBrightness_init delta =
     (if delta < 0 \<or> 255 < delta then Inl AssertionError else Inr delta)
   \<and> MoveBoxes_init lo hi =
     Inr \<lparr>offset_low = max lo 0, offset_high = max lo hi, range_mb = max lo hi - max lo 0\<rparr>"
  by (auto simp add: RandomSaturation_init_def RandomContrast_init_def
      RandomBrightness_init_def MoveBoxes_init_def Let_def)

text \<open>
  C9 fails for MoveBoxes: an upper offset below the lower one, and a negative lower
  offset, both construct an object.
\<close>

theorem C9_MoveBoxes_accepts_invalid_range:
  "MoveBoxes_init (1 / 2) (1 / 5) = Inr \<lparr>offset_low = 1 / 2, offset_high = 1 / 2, range_mb = 0\<rparr>
   \<and> MoveBoxes_init (- 1) (1 / 5)
      = Inr \<lparr>offset_low = 0, offset_high = 1 / 5, range_mb = 1 / 5\<rparr>"
  by (simp add: MoveBoxes_init_def Let_def)

lemma false_object_nth:
  "length ts = length ms \<Longrightarrow> i < length ms \<Longrightarrow>
     false_object ts ms ! i = (if ms ! i \<and> ts ! i = 0 then 1 else 0)"
  by (simp add: false_object_def)

lemma length_false_object: "length (false_object ts ms) = min (length ts) (length ms)"
  by (simp add: false_object_def)

lemma col_sums_nth:
  "j < shape1 m \<Longrightarrow> col_sums m ! j = (\<Sum>i<length (rows m). rows m ! i ! j)"
  by (simp add: col_sums_def sum_list_sum_nth atLeast0LessThan)

lemma add_false_object_props:
  assumes wf: "wf_matrix m" and s0: "shape0 m = M" and s1: "shape1 m = M"
    and mp: "length mp = M" and mn: "length mn = M"
  defines "L \<equiv> add_false_object m mp mn"
  shows "shape0 L = M + 1" and "shape1 L = M + 1" and "wf_matrix L"
    and "\<And>i. i < M \<Longrightarrow> rows L ! i = rows m ! i @ [if mp ! i \<and> sum_list (rows m ! i) = 0 then 1 else 0]"
    and "rows L ! M = false_object (col_sums m) mn @ [0]"
    and "\<And>i. i < M \<Longrightarrow> length (rows m ! i) = M"
proof -
  from wf s0 s1 have len: "length (rows m) = M"
    and row: "\<And>r. r \<in> set (rows m) \<Longrightarrow> length r = M"
    by (auto simp add: wf_matrix_def list_all_iff)
  show rl: "\<And>i. i < M \<Longrightarrow> length (rows m ! i) = M"
    using len row by simp
  have rs: "length (row_sums m) = M"
    by (simp add: row_sums_def len)
  have cs: "length (col_sums m) = M"
    by (simp add: col_sums_def s1)
  have lfp: "length (false_object (row_sums m) mp) = M"
    by (simp add: length_false_object rs mp)
  have lfn: "length (false_object (col_sums m) mn) = M"
    by (simp add: length_false_object cs mn)
  have rowsL: "rows L = map (\<lambda>(r, f). r @ [f]) (zip (rows m) (false_object (row_sums m) mp))
                  @ [false_object (col_sums m) mn @ [0]]"
    by (simp add: L_def add_false_object_def Let_def)
  show "shape0 L = M + 1"
    by (simp add: L_def add_false_object_def Let_def s0)
  show "shape1 L = M + 1"
    by (simp add: L_def add_false_object_def Let_def s1)
  show "rows L ! M = false_object (col_sums m) mn @ [0]"
    unfolding rowsL using len lfp by (simp add: nth_append)
  show ri: "rows L ! i = rows m ! i @ [if mp ! i \<and> sum_list (rows m ! i) = 0 then 1 else 0]"
    if "i < M" for i
  proof -
    have "false_object (row_sums m) mp ! i = (if mp ! i \<and> row_sums m ! i = 0 then 1 else 0)"
      using that rs mp by (simp add: false_object_nth)
    moreover have "row_sums m ! i = sum_list (rows m ! i)"
      using that len by (simp add: row_sums_def)
    ultimately show ?thesis
      unfolding rowsL using that len lfp by (simp add: nth_append)
  qed
  have "length (rows L) = M + 1"
    unfolding rowsL using len lfp by simp
  moreover have "length r = M + 1" if "r \<in> set (rows L)" for r
  proof -
    from that obtain i where i: "i < M + 1" and r: "r = rows L ! i"
      using \<open>length (rows L) = M + 1\<close> by (metis in_set_conv_nth)
    show ?thesis
    proof (cases "i < M")
      case True
      with r ri rl show ?thesis by simp
    next
      case False
      with i have "i = M" by simp
      with r \<open>rows L ! M = false_object (col_sums m) mn @ [0]\<close> lfn show ?thesis by simp
    qed
  qed
  ultimately show "wf_matrix L"
    using \<open>shape0 L = M + 1\<close> \<open>shape1 L = M + 1\<close>
    by (simp add: wf_matrix_def list_all_iff)
qed


lemma index_rows_wf:
  assumes "index_rows idx m = Inr m'" and "wf_matrix m"
  shows "wf_matrix m' \<and> shape0 m' = length idx \<and> shape1 m' = shape1 m"
proof -
  from assms(1) have ok: "\<And>i. i \<in> set idx \<Longrightarrow> i < shape0 m"
    and m': "m' = \<lparr>shape0 = length idx, shape1 = shape1 m, rows = map ((!) (rows m)) idx\<rparr>"
    by (auto simp add: index_rows_def list_all_iff split: if_splits)
  from assms(2) have len: "length (rows m) = shape0 m"
    and row: "\<And>r. r \<in> set (rows m) \<Longrightarrow> length r = shape1 m"
    by (auto simp add: wf_matrix_def list_all_iff)
  have "length (rows m ! i) = shape1 m" if "i \<in> set idx" for i
    using ok [OF that] len row by simp
  then show ?thesis
    unfolding m' by (simp add: wf_matrix_def list_all_iff)
qed

lemma index_cols_wf:
  assumes "index_cols idx m = Inr m'" and "wf_matrix m"
  shows "wf_matrix m' \<and> shape0 m' = shape0 m \<and> shape1 m' = length idx"
proof -
  from assms(1) have
    m': "m' = \<lparr>shape0 = shape0 m, shape1 = length idx,
               rows = map (\<lambda>r. map ((!) r) idx) (rows m)\<rparr>"
    by (auto simp add: index_cols_def split: if_splits)
  from assms(2) have len: "length (rows m) = shape0 m"
    by (simp add: wf_matrix_def)
  then show ?thesis
    unfolding m' by (simp add: wf_matrix_def list_all_iff)
qed

lemma ResizeShuffleBoxes_paired:
  assumes run: "ResizeShuffleBoxes M s w = (Inr out, w')"
    and nxt: "img_next s = Some im"
    and lab: "labels s = Some lab" and wf: "wf_matrix lab"
    and b1: "boxes_pre s = Some b1" and b2: "boxes_next s = Some b2"
    and p1: "length (shd (perm_src w)) = M"
    and p2: "length (shd (stl (perm_src w))) = M"
  shows "\<exists>lab2 bp bn. wf_matrix lab2 \<and> shape0 lab2 = M \<and> shape1 lab2 = M
           \<and> s_boxes_pre out = (bp, map (\<lambda>i. i < length b1) (shd (perm_src w)) @ [True])
           \<and> s_boxes_next out
               = (Some bn, Some (map (\<lambda>i. i < length b2) (shd (stl (perm_src w))) @ [True]))
           \<and> s_labels out
               = Some (add_false_object lab2 (map (\<lambda>i. i < length b1) (shd (perm_src w)))
                         (map (\<lambda>i. i < length b2) (shd (stl (perm_src w)))))"
proof -
  from run nxt lab b1 b2 obtain lab1 lab2 bp bn where
    l1: "index_rows (shd (perm_src w)) lab = Inr lab1"
    and l2: "index_cols (shd (stl (perm_src w))) lab1 = Inr lab2"
    and out: "out = \<lparr>s_img_pre = img_pre s, s_img_next = Some im,
              s_boxes_pre = (bp, map (\<lambda>i. i < length b1) (shd (perm_src w)) @ [True]),
              s_boxes_next
                = (Some bn, Some (map (\<lambda>i. i < length b2) (shd (stl (perm_src w))) @ [True])),
              s_labels = Some (add_false_object lab2
                           (map (\<lambda>i. i < length b1) (shd (perm_src w)))
                           (map (\<lambda>i. i < length b2) (shd (stl (perm_src w)))))\<rparr>"
    by (auto simp add: ResizeShuffleBoxes_def resize_f_def shuffle_arange_def Let_def
        split: sum.splits if_splits prod.splits)
  from index_rows_wf [OF l1 wf] p1 have w1: "wf_matrix lab1" and s10: "shape0 lab1 = M"
    by simp_all
  from index_cols_wf [OF l2 w1] s10 p2 have "wf_matrix lab2 \<and> shape0 lab2 = M \<and> shape1 lab2 = M"
    by simp
  with out show ?thesis
    by (intro exI [of _ lab2] exI [of _ bp] exI [of _ bn]) simp
qed

text \<open>
  C6: for a paired sample of capacity \<open>M\<close> whose two shuffles are permutations of
  \<open>[0..<M]\<close>, the label matrix produced is (M+1) x (M+1); for \<open>i < M\<close> its entry (i, M) is
  1 if row \<open>i\<close> is valid (it holds a real box of frame A) and its first \<open>M\<close> entries sum
  to zero, and 0 otherwise; symmetrically for the entries (M, j) and the columns; both
  masks have length M+1 and a last entry \<open>True\<close>.
\<close>

theorem C6_false_object_entries:
  assumes run: "ResizeShuffleBoxes M s w = (Inr out, w')"
    and nxt: "img_next s = Some im"
    and lab: "labels s = Some lab" and wf: "wf_matrix lab"
    and b1: "boxes_pre s = Some b1" and b2: "boxes_next s = Some b2"
    and p1: "mset (shd (perm_src w)) = mset [0..<M]"
    and p2: "mset (shd (stl (perm_src w))) = mset [0..<M]"
  shows "\<exists>L bp mp bn mn.
           s_labels out = Some L \<and> s_boxes_pre out = (bp, mp)
           \<and> s_boxes_next out = (Some bn, Some mn)
           \<and> shape0 L = M + 1 \<and> shape1 L = M + 1 \<and> wf_matrix L
           \<and> length mp = M + 1 \<and> mp ! M \<and> length mn = M + 1 \<and> mn ! M
           \<and> (\<forall>i<M. mp ! i = (shd (perm_src w) ! i < length b1))
           \<and> (\<forall>j<M. mn ! j = (shd (stl (perm_src w)) ! j < length b2))
           \<and> (\<forall>i<M. rows L ! i ! M = (if mp ! i \<and> sum_list (take M (rows L ! i)) = 0 then 1 else 0))
           \<and> (\<forall>j<M. rows L ! M ! j = (if mn ! j \<and> (\<Sum>i<M. rows L ! i ! j) = 0 then 1 else 0))"
proof -
  let ?p1 = "shd (perm_src w)" and ?p2 = "shd (stl (perm_src w))"
  let ?mp = "map (\<lambda>i. i < length b1) ?p1" and ?mn = "map (\<lambda>i. i < length b2) ?p2"
  from p1 have l1: "length ?p1 = M" by (metis length_upt mset_eq_length minus_nat.diff_0)
  from p2 have l2: "length ?p2 = M" by (metis length_upt mset_eq_length minus_nat.diff_0)
  from ResizeShuffleBoxes_paired [OF run nxt lab wf b1 b2 l1 l2] obtain lab2 bp bn where
    w2: "wf_matrix lab2" and s0: "shape0 lab2 = M" and s1: "shape1 lab2 = M"
    and obp: "s_boxes_pre out = (bp, ?mp @ [True])"
    and obn: "s_boxes_next out = (Some bn, Some (?mn @ [True]))"
    and ol: "s_labels out = Some (add_false_object lab2 ?mp ?mn)"
    by blast
  let ?L = "add_false_object lab2 ?mp ?mn"
  have lmp: "length ?mp = M" and lmn: "length ?mn = M"
    using l1 l2 by simp_all
  note P = add_false_object_props [OF w2 s0 s1 lmp lmn]
  from w2 s0 have len2: "length (rows lab2) = M"
    by (simp add: wf_matrix_def)
  have r: "rows ?L ! i ! M = (if (?mp @ [True]) ! i \<and> sum_list (take M (rows ?L ! i)) = 0 then 1 else 0)"
    if "i < M" for i
    using that P(4) [OF that] P(6) [OF that] lmp by (simp add: nth_append)
  have c: "rows ?L ! M ! j = (if (?mn @ [True]) ! j \<and> (\<Sum>i<M. rows ?L ! i ! j) = 0 then 1 else 0)"
    if "j < M" for j
  proof -
    have "length (col_sums lab2) = M"
      by (simp add: col_sums_def s1)
    then have "rows ?L ! M ! j = (if ?mn ! j \<and> col_sums lab2 ! j = 0 then 1 else 0)"
      using that lmn P(5) by (simp add: nth_append length_false_object false_object_nth)
    moreover have "col_sums lab2 ! j = (\<Sum>i<M. rows lab2 ! i ! j)"
      using that s1 len2 by (simp add: col_sums_nth)
    moreover have "(\<Sum>i<M. rows lab2 ! i ! j) = (\<Sum>i<M. rows ?L ! i ! j)"
      using that P(4) P(6) by (intro sum.cong) (simp_all add: nth_append)
    ultimately show ?thesis
      using that lmn by (simp add: nth_append)
  qed
  have "\<forall>i<M. (?mp @ [True]) ! i = (?p1 ! i < length b1)"
    using l1 by (simp add: nth_append)
  moreover have "\<forall>j<M. (?mn @ [True]) ! j = (?p2 ! j < length b2)"
    using l2 by (simp add: nth_append)
  moreover have "(?mp @ [True]) ! M" "(?mn @ [True]) ! M"
    using lmp lmn by (simp_all add: nth_append)
  ultimately show ?thesis
    using ol obp obn P(1) P(2) P(3) r c lmp lmn
    by (intro exI [of _ ?L] exI [of _ bp] exI [of _ "?mp @ [True]"] exI [of _ bn]
        exI [of _ "?mn @ [True]"]) simp
qed

text \<open>
  C7, as the code has it: the corner entry (M, M) of the label matrix is 0, the
  \<^verbatim>\<open>[0]\<close> appended to the no-match row.
\<close>

theorem C7_corner_is_zero:
  assumes run: "ResizeShuffleBoxes M s w = (Inr out, w')"
    and nxt: "img_next s = Some im"
    and lab: "labels s = Some lab" and wf: "wf_matrix lab"
    and b1: "boxes_pre s = Some b1" and b2: "boxes_next s = Some b2"
    and p1: "mset (shd (perm_src w)) = mset [0..<M]"
    and p2: "mset (shd (stl (perm_src w))) = mset [0..<M]"
  shows "\<exists>L. s_labels out = Some L \<and> shape0 L = M + 1 \<and> shape1 L = M + 1
           \<and> rows L ! M ! M = 0"
proof -
  let ?p1 = "shd (perm_src w)" and ?p2 = "shd (stl (perm_src w))"
  let ?mp = "map (\<lambda>i. i < length b1) ?p1" and ?mn = "map (\<lambda>i. i < length b2) ?p2"
  from p1 have l1: "length ?p1 = M" by (metis length_upt mset_eq_length minus_nat.diff_0)
  from p2 have l2: "length ?p2 = M" by (metis length_upt mset_eq_length minus_nat.diff_0)
  from ResizeShuffleBoxes_paired [OF run nxt lab wf b1 b2 l1 l2] obtain lab2 where
    w2: "wf_matrix lab2" and s0: "shape0 lab2 = M" and s1: "shape1 lab2 = M"
    and ol: "s_labels out = Some (add_false_object lab2 ?mp ?mn)"
    by blast
  have lmp: "length ?mp = M" and lmn: "length ?mn = M"
    using l1 l2 by simp_all
  note P = add_false_object_props [OF w2 s0 s1 lmp lmn]
  have "length (false_object (col_sums lab2) ?mn) = M"
    by (simp add: length_false_object col_sums_def s1 l2)
  with P(5) have "rows (add_false_object lab2 ?mp ?mn) ! M ! M = 0"
    by (simp add: nth_append)
  with ol P(1) P(2) show ?thesis by simp
qed

lemma ResizeShuffleBoxes_pair2:
  "ResizeShuffleBoxes 2 pair2 world1 = (Inr shuffled2, world1)"
  by (simp add: ResizeShuffleBoxes_def pair2_def world1_def shuffled2_def resize_f_def
      shuffle_arange_def take_rows_def index_rows_def index_cols_def add_false_object_def
      false_object_def row_sums_def col_sums_def Let_def upt_rec [of 0] upt_rec [of 1]
      upt_rec [of 2] numeral_2_eq_2)

lemma perm2: "mset [1, 0] = mset [0..<(2::nat)]"
  by (simp add: upt_rec [of 0] upt_rec [of 1] upt_rec [of 2] numeral_2_eq_2)

text \<open>
  C7 fails: at capacity 2 the matrix produced from \<open>pair2\<close> has the corner entry 0.
\<close>

theorem C7_corner_counterexample:
  "fst (ResizeShuffleBoxes 2 pair2 world1) = Inr shuffled2
   \<and> s_labels shuffled2 = Some \<lparr>shape0 = 3, shape1 = 3, rows = [[0, 0, 1], [1, 0, 0], [0, 1, 0]]\<rparr>
   \<and> [[0, 0, 1], [1, 0, 0], [0, 1, (0::rat)]] ! 2 ! 2 \<noteq> 1"
  by (simp add: ResizeShuffleBoxes_pair2) (simp add: shuffled2_def)

lemma ConvertFromInts_img_next:
  "ConvertFromInts s w = (Inr s', w') \<Longrightarrow> img_next s' = img_next s"
  by (auto simp add: ConvertFromInts_def split: option.splits)

lemma MoveBoxes_call_img_next:
  "MoveBoxes_call mb s w = (Inr s', w') \<Longrightarrow> img_next s' = img_next s"
  by (auto simp add: MoveBoxes_call_def split: option.splits sum.splits prod.splits)

lemma PhotometricDistort_call_single:
  "img_next s = None \<Longrightarrow> PhotometricDistort_call pdo s w = Some (Inl AttributeError, w)"
  by (simp add: PhotometricDistort_call_def)

lemma train_head_single:
  assumes "img_next s = None"
  shows "\<exists>e w'. Compose (returning ConvertFromInts # returning (MoveBoxes_call mb)
                     # PhotometricDistort_call pdo # ts) s w = Some (Inl e, w')"
proof (cases "ConvertFromInts s w")
  case (Pair r1 w1)
  show ?thesis
  proof (cases r1)
    case (Inl e)
    with Pair show ?thesis by (simp add: returning_def)
  next
    case (Inr s1)
    with Pair assms have n1: "img_next s1 = None"
      using ConvertFromInts_img_next by metis
    show ?thesis
    proof (cases "MoveBoxes_call mb s1 w1")
      case (Pair r2 w2)
      note P2 = this
      show ?thesis
      proof (cases r2)
        case (Inl e)
        with P2 \<open>ConvertFromInts s w = (r1, w1)\<close> \<open>r1 = Inr s1\<close> show ?thesis
          by (simp add: returning_def)
      next
        case (Inr s2)
        with P2 n1 have n2: "img_next s2 = None"
          using MoveBoxes_call_img_next by metis
        with P2 Inr \<open>ConvertFromInts s w = (r1, w1)\<close> \<open>r1 = Inr s1\<close> show ?thesis
          by (simp add: returning_def PhotometricDistort_call_single)
      qed
    qed
  qed
qed

text \<open>
  C10: on a sample without a second frame, \<^verbatim>\<open>PhotometricDistort.__call__\<close> raises
  (AttributeError, at \<^verbatim>\<open>img_next.copy()\<close>), and so the chain of type 'train' raises on it,
  whatever its configuration.
\<close>

theorem C10_single_frame_raises:
  assumes "img_next s = None"
  shows "PhotometricDistort_call pdo s w = Some (Inl AttributeError, w)
         \<and> (case DANAugmentation_train cv iou cfg finish of
               Inl e \<Rightarrow> True
             | Inr augment \<Rightarrow> (\<exists>e w'. augment s w = Some (Inl e, w')))"
proof -
  have "\<exists>e w'. augment s w = Some (Inl e, w')"
    if "DANAugmentation_train cv iou cfg finish = Inr augment" for augment
  proof -
    from that obtain mb pdo' where
      aug: "augment = (\<lambda>s w.
            case Compose
                   [returning ConvertFromInts,
                    returning (MoveBoxes_call mb),
                    PhotometricDistort_call pdo',
                    returning (Expand_call \<lparr>mean = mean_pixel cfg, max_expand = cfg_max_expand cfg\<rparr>),
                    RandomSampleCrop_call (cfg_max_object cfg) iou,
                    returning RandomMirror_call,
                    returning (\<lambda>s w. (ToPercentCoords s, w)),
                    returning (Resize cv (image_size cfg)),
                    returning (SubtractMeans (mean_pixel cfg))] s w of
              None \<Rightarrow> None
            | Some (Inl e, w') \<Rightarrow> Some (Inl e, w')
            | Some (Inr s', w') \<Rightarrow>
                (case ResizeShuffleBoxes (cfg_max_object cfg) s' w' of
                   (Inl e, w'') \<Rightarrow> Some (Inl e, w'')
                 | (Inr sh, w'') \<Rightarrow> Some (finish sh, w'')))"
      by (auto simp add: DANAugmentation_train_def split: sum.splits)
    from train_head_single [OF assms] obtain e w' where
      "Compose [returning ConvertFromInts,
                    returning (MoveBoxes_call mb),
                    PhotometricDistort_call pdo',
                    returning (Expand_call \<lparr>mean = mean_pixel cfg, max_expand = cfg_max_expand cfg\<rparr>),
                    RandomSampleCrop_call (cfg_max_object cfg) iou,
                    returning RandomMirror_call,
                    returning (\<lambda>s w. (ToPercentCoords s, w)),
                    returning (Resize cv (image_size cfg)),
                    returning (SubtractMeans (mean_pixel cfg))] s w = Some (Inl e, w')"
      by blast
    then show ?thesis
      unfolding aug by simp
  qed
  then show ?thesis
    by (simp add: PhotometricDistort_call_single [OF assms] split: sum.splits)
qed

theorem C6_false_object_entries_witness:
  "ResizeShuffleBoxes 2 pair2 world1 = (Inr shuffled2, world1)
   \<and> img_next pair2 = Some frame100
   \<and> wf_matrix \<lparr>shape0 = 2, shape1 = 2, rows = [[0, 1], [0, 0]]\<rparr>
   \<and> mset (shd (perm_src world1)) = mset [0..<2]
   \<and> (\<exists>L bp mp bn mn.
           s_labels shuffled2 = Some L \<and> s_boxes_pre shuffled2 = (bp, mp)
           \<and> s_boxes_next shuffled2 = (Some bn, Some mn)
           \<and> shape0 L = 2 + 1 \<and> shape1 L = 2 + 1 \<and> wf_matrix L
           \<and> length mp = 2 + 1 \<and> mp ! 2 \<and> length mn = 2 + 1 \<and> mn ! 2
           \<and> (\<forall>i<2. mp ! i = (shd (perm_src world1) ! i < length ([(10, 10, 30, 30), (60, 20, 70, 40)] :: box list)))
           \<and> (\<forall>j<2. mn ! j = (shd (stl (perm_src world1)) ! j
                                < length ([(50, 50, 80, 80), (12, 12, 32, 32)] :: box list)))
           \<and> (\<forall>i<2. rows L ! i ! 2 = (if mp ! i \<and> sum_list (take 2 (rows L ! i)) = 0 then 1 else 0))
           \<and> (\<forall>j<2. rows L ! 2 ! j = (if mn ! j \<and> (\<Sum>i<2. rows L ! i ! j) = 0 then 1 else 0)))"
proof -
  have nxt: "img_next pair2 = Some frame100"
    and lab: "labels pair2 = Some \<lparr>shape0 = 2, shape1 = 2, rows = [[0, 1], [0, 0]]\<rparr>"
    and b1: "boxes_pre pair2 = Some [(10, 10, 30, 30), (60, 20, 70, 40)]"
    and b2: "boxes_next pair2 = Some [(50, 50, 80, 80), (12, 12, 32, 32)]"
    by (simp_all add: pair2_def)
  have wf: "wf_matrix \<lparr>shape0 = 2, shape1 = 2, rows = [[0, 1], [0, 0]]\<rparr>"
    by (simp add: wf_matrix_def)
  have p1: "mset (shd (perm_src world1)) = mset [0..<2]"
    and p2: "mset (shd (stl (perm_src world1))) = mset [0..<2]"
    using perm2 by (simp_all add: world1_def)
  from C6_false_object_entries [OF ResizeShuffleBoxes_pair2 nxt lab wf b1 b2 p1 p2]
    ResizeShuffleBoxes_pair2 nxt wf p1
  show ?thesis by blast
qed

theorem C7_corner_is_zero_witness:
  "ResizeShuffleBoxes 2 pair2 world1 = (Inr shuffled2, world1)
   \<and> img_next pair2 = Some frame100
   \<and> wf_matrix \<lparr>shape0 = 2, shape1 = 2, rows = [[0, 1], [0, 0]]\<rparr>
   \<and> mset (shd (perm_src world1)) = mset [0..<2]
   \<and> (\<exists>L. s_labels shuffled2 = Some L \<and> shape0 L = 2 + 1 \<and> shape1 L = 2 + 1
           \<and> rows L ! 2 ! 2 = 0)"
proof -
  have nxt: "img_next pair2 = Some frame100"
    and lab: "labels pair2 = Some \<lparr>shape0 = 2, shape1 = 2, rows = [[0, 1], [0, 0]]\<rparr>"
    and b1: "boxes_pre pair2 = Some [(10, 10, 30, 30), (60, 20, 70, 40)]"
    and b2: "boxes_next pair2 = Some [(50, 50, 80, 80), (12, 12, 32, 32)]"
    by (simp_all add: pair2_def)
  have wf: "wf_matrix \<lparr>shape0 = 2, shape1 = 2, rows = [[0, 1], [0, 0]]\<rparr>"
    by (simp add: wf_matrix_def)
  have p1: "mset (shd (perm_src world1)) = mset [0..<2]"
    and p2: "mset (shd (stl (perm_src world1))) = mset [0..<2]"
    using perm2 by (simp_all add: world1_def)
  from C7_corner_is_zero [OF ResizeShuffleBoxes_pair2 nxt lab wf b1 b2 p1 p2]
    ResizeShuffleBoxes_pair2 nxt wf p1
  show ?thesis by blast
qed

theorem C10_single_frame_raises_witness:
  "img_next single1 = None
   \<and> (\<exists>pdo. PhotometricDistort_init cv_plain (7 / 10) (3 / 2) (7 / 10) (3 / 2) = Inr pdo
          \<and> PhotometricDistort_call pdo single1 world1 = Some (Inl AttributeError, world1))
   \<and> (\<exists>augment. DANAugmentation_train cv_plain iou_model cfg1 Inr = Inr augment
          \<and> (\<exists>e w'. augment single1 world1 = Some (Inl e, w')))"
proof -
  have n: "img_next single1 = None"
    by (simp add: single1_def)
  obtain pdo where pdo: "PhotometricDistort_init cv_plain (7 / 10) (3 / 2) (7 / 10) (3 / 2) = Inr pdo"
    by (simp add: PhotometricDistort_init_def RandomContrast_init_def RandomSaturation_init_def
        RandomHue_init_def RandomBrightness_init_def)
  then obtain augment :: "sample \<Rightarrow> world \<Rightarrow> ((error + shuffled) \<times> world) option"
    where aug: "DANAugmentation_train cv_plain iou_model cfg1 Inr = Inr augment"
    by (simp add: DANAugmentation_train_def MoveBoxes_init_def cfg1_def Let_def)
  from C10_single_frame_raises [OF n, of pdo world1 cv_plain iou_model cfg1 Inr] n pdo aug
  show ?thesis by simp
qed

lemma uniform_int_src: "uniform a b w = (x, w') \<Longrightarrow> int_src w' = int_src w \<and> trials w' = trials w"
  by (auto simp add: uniform_def)

lemma trial_keeps:
  assumes "trial M iou s md mn mx w = (r, w')"
  shows "int_src w' = int_src w \<and> trials w' = trials w"
  using assms
  by (auto simp add: trial_def uniform_def Let_def split: if_splits sum.splits option.splits prod.splits)

lemma trial_loop_keeps:
  "trial_loop n M iou s md mn mx w = (r, w')
     \<Longrightarrow> int_src w' = int_src w \<and> trials w' \<le> trials w + n \<and> trials w \<le> trials w'"
proof (induction n arbitrary: w)
  case 0
  then show ?case by simp
next
  case (Suc n)
  obtain r1 w1 where t: "trial M iou s md mn mx (w\<lparr>trials := trials w + 1\<rparr>) = (r1, w1)"
    by (cases "trial M iou s md mn mx (w\<lparr>trials := trials w + 1\<rparr>)")
  from trial_keeps [OF t] have k: "int_src w1 = int_src w" "trials w1 = trials w + 1"
    by simp_all
  show ?case
  proof (cases "r1 = Inr None")
    case True
    with Suc.prems t have "trial_loop n M iou s md mn mx w1 = (r, w')"
      by simp
    from Suc.IH [OF this] k show ?thesis by simp
  next
    case False
    with Suc.prems t have "r = r1" "w' = w1"
      by (auto split: sum.splits option.splits)
    with k show ?thesis by simp
  qed
qed

lemma trial_loop_accepted:
  "trial_loop n M iou s md mn mx w = (Inr (Some s'), w')
     \<Longrightarrow> \<exists>w0 w1. trial M iou s md mn mx w0 = (Inr (Some s'), w1)"
proof (induction n arbitrary: w)
  case 0
  then show ?case by simp
next
  case (Suc n)
  obtain r1 w1 where t: "trial M iou s md mn mx (w\<lparr>trials := trials w + 1\<rparr>) = (r1, w1)"
    by (cases "trial M iou s md mn mx (w\<lparr>trials := trials w + 1\<rparr>)")
  show ?case
  proof (cases "r1 = Inr None")
    case True
    with Suc.prems t have "trial_loop n M iou s md mn mx w1 = (Inr (Some s'), w')"
      by simp
    from Suc.IH [OF this] show ?thesis .
  next
    case False
    with Suc.prems t have "r1 = Inr (Some s')"
      by (auto split: sum.splits option.splits)
    with t show ?thesis by blast
  qed
qed


lemma call_returns_when_None_drawn:
  assumes "sample_options ! (snth (int_src w) k mod length sample_options) = None"
  shows "\<exists>r w'. RandomSampleCrop_call M iou s w = Some (r, w')
           \<and> trials w' \<le> trials w + 50 * k
           \<and> (case r of
                 Inl e \<Rightarrow> True
               | Inr s' \<Rightarrow> s' = s \<or> (\<exists>md mn mx w0 w1. trial M iou s md mn mx w0 = (Inr (Some s'), w1)))"
  using assms
proof (induction k arbitrary: w)
  case 0
  then show ?case
    by (subst RandomSampleCrop_call.simps) (simp add: randint_def)
next
  case (Suc k)
  let ?w1 = "w\<lparr>int_src := stl (int_src w)\<rparr>"
  show ?case
  proof (cases "sample_options ! (shd (int_src w) mod length sample_options)")
    case None
    then show ?thesis
      by (subst RandomSampleCrop_call.simps) (simp add: randint_def)
  next
    case (Some bounds)
    obtain mn mx where b: "bounds = (mn, mx)" by (cases bounds)
    let ?mn = "case mn of None \<Rightarrow> NegInf | Some v \<Rightarrow> Fin v"
    let ?mx = "case mx of None \<Rightarrow> PosInf | Some v \<Rightarrow> Fin v"
    obtain r w2 where tl: "trial_loop 50 M iou s (Some (mn, mx)) ?mn ?mx ?w1 = (r, w2)"
      by (cases "trial_loop 50 M iou s (Some (mn, mx)) ?mn ?mx ?w1")
    from trial_loop_keeps [OF tl] have k2: "int_src w2 = stl (int_src w)"
      and t2: "trials w2 \<le> trials w + 50"
      by simp_all
    have unf: "RandomSampleCrop_call M iou s w =
        (case r of Inl e \<Rightarrow> Some (Inl e, w2)
         | Inr None \<Rightarrow> RandomSampleCrop_call M iou s w2
         | Inr (Some s') \<Rightarrow> Some (Inr s', w2))"
      by (subst RandomSampleCrop_call.simps)
         (simp add: randint_def Some b tl Let_def split: sum.splits option.splits)
    show ?thesis
    proof (cases r)
      case (Inl e)
      with unf t2 show ?thesis by simp
    next
      case (Inr o')
      show ?thesis
      proof (cases o')
        case None
        from Suc.prems k2 have "sample_options ! (snth (int_src w2) k mod length sample_options) = None"
          by simp
        from Suc.IH [OF this] obtain r' w' where
          c: "RandomSampleCrop_call M iou s w2 = Some (r', w')"
          and t: "trials w' \<le> trials w2 + 50 * k"
          and res: "(case r' of
                 Inl e \<Rightarrow> True
               | Inr s' \<Rightarrow> s' = s \<or> (\<exists>md mn mx w0 w1. trial M iou s md mn mx w0 = (Inr (Some s'), w1)))"
          by blast
        from t t2 have "trials w' \<le> trials w + 50 * Suc k" by simp
        with unf Inr None c res show ?thesis by simp
      next
        case (Some s')
        with tl Inr have "\<exists>w0 w1. trial M iou s (Some (mn, mx)) ?mn ?mx w0 = (Inr (Some s'), w1)"
          using trial_loop_accepted by blast
        then have "\<exists>md mn mx w0 w1. trial M iou s md mn mx w0 = (Inr (Some s'), w1)"
          by blast
        with unf Inr Some t2 show ?thesis by simp
      qed
    qed
  qed
qed

lemma trial_single1_fails:
  assumes "unit_src w = sconst 0"
  shows "trial 80 iou_model single1 md mn PosInf w = (Inr None, w)"
proof -
  have u: "uniform a b w = (a, w)" for a b
    using assms by (simp add: uniform_def)
  have c: "crop 80 iou_model frame100 (Some [(10, 10, 30, 30)]) None md mn PosInf
             80 80 20 20 True = Inr None"
    by (simp add: crop_def crop_rect_def py_int_def iou_model_def iou_reject_def center_in_def
        Let_def)
  show ?thesis
    by (simp add: trial_def single1_def frame100_def u c [unfolded frame100_def])
qed

lemma trial_loop_single1_fails:
  "unit_src w = sconst 0 \<Longrightarrow>
     trial_loop n 80 iou_model single1 md mn PosInf w
       = (Inr None, w\<lparr>trials := trials w + n\<rparr>)"
proof (induction n arbitrary: w)
  case 0
  then show ?case by simp
next
  case (Suc n)
  have "unit_src (w\<lparr>trials := Suc (trials w)\<rparr>) = unit_src w"
    by simp
  with Suc.prems have u: "unit_src (w\<lparr>trials := Suc (trials w)\<rparr>) = sconst 0"
    by (rule trans [rotated])
  show ?case
    by (simp add: trial_single1_fails [OF u] Suc.IH [OF u])
qed

lemma round_single1_fails:
  assumes "unit_src w = sconst 0" and "int_src w = 1 ## ks"
  shows "RandomSampleCrop_call 80 iou_model single1 w
           = RandomSampleCrop_call 80 iou_model single1 (w\<lparr>int_src := ks, trials := trials w + 50\<rparr>)"
proof -
  have "unit_src (w\<lparr>int_src := ks\<rparr>) = unit_src w"
    by simp
  with assms(1) have u: "unit_src (w\<lparr>int_src := ks\<rparr>) = sconst 0"
    by (rule trans [rotated])
  show ?thesis
    by (subst RandomSampleCrop_call.simps)
       (simp add: randint_def sample_options_def assms(2) trial_loop_single1_fails [OF u])
qed



lemma rounds_single1_fail:
  "unit_src w = sconst 0 \<Longrightarrow> int_src w = replicate n 1 @- ks \<Longrightarrow>
     RandomSampleCrop_call 80 iou_model single1 w
       = RandomSampleCrop_call 80 iou_model single1 (w\<lparr>int_src := ks, trials := trials w + 50 * n\<rparr>)"
proof (induction n arbitrary: w)
  case 0
  then have "w\<lparr>int_src := ks, trials := trials w + 50 * 0\<rparr> = w" by simp
  then show ?case by simp
next
  case (Suc n)
  let ?w = "w\<lparr>int_src := replicate n 1 @- ks, trials := trials w + 50\<rparr>"
  from Suc.prems have i: "int_src w = 1 ## (replicate n 1 @- ks)" by simp
  have "unit_src ?w = unit_src w" by simp
  with Suc.prems(1) have u: "unit_src ?w = sconst 0" by (rule trans [rotated])
  have k: "int_src ?w = replicate n 1 @- ks" by simp
  have "RandomSampleCrop_call 80 iou_model single1 w = RandomSampleCrop_call 80 iou_model single1 ?w"
    by (rule round_single1_fails [OF Suc.prems(1) i])
  also have "\<dots> = RandomSampleCrop_call 80 iou_model single1
                     (?w\<lparr>int_src := ks, trials := trials ?w + 50 * n\<rparr>)"
    by (rule Suc.IH [OF u k])
  also have "?w\<lparr>int_src := ks, trials := trials ?w + 50 * n\<rparr>
               = w\<lparr>int_src := ks, trials := trials w + 50 * Suc n\<rparr>"
    by simp
  finally show ?case .
qed

lemma call_single1_no_return:
  assumes "RandomSampleCrop_call M iou s w = Some y"
  shows "\<not> (M = 80 \<and> iou = iou_model \<and> s = single1 \<and> unit_src w = sconst 0
            \<and> int_src w = sconst 2)"
proof (rule RandomSampleCrop_call.raw_induct
    [where P = "\<lambda>M iou s w y. \<not> (M = 80 \<and> iou = iou_model \<and> s = single1
                  \<and> unit_src w = sconst 0 \<and> int_src w = sconst 2)", OF _ assms])
  fix f :: "nat \<Rightarrow> iou_fun \<Rightarrow> sample \<Rightarrow> world \<Rightarrow> ((error + sample) \<times> world) option"
  fix M iou s wd y
  assume IH: "\<And>iou s wd b y. f iou s wd b = Some y \<Longrightarrow>
      \<not> (iou = 80 \<and> s = iou_model \<and> wd = single1 \<and> unit_src b = sconst 0 \<and> int_src b = sconst 2)"
  assume body: "(case randint (length sample_options) wd of
      (k, wd1) \<Rightarrow>
        case sample_options ! k of None \<Rightarrow> Some (Inr s, wd1)
        | Some (mn, mx) \<Rightarrow>
            let min_iou = case mn of None \<Rightarrow> NegInf | Some v \<Rightarrow> Fin v;
                max_iou = case mx of None \<Rightarrow> PosInf | Some v \<Rightarrow> Fin v
            in case trial_loop 50 M iou s (Some (mn, mx)) min_iou max_iou wd1 of
               (Inl e, wd2) \<Rightarrow> Some (Inl e, wd2)
               | (Inr None, wd2) \<Rightarrow> f M iou s wd2
               | (Inr (Some s'), wd2) \<Rightarrow> Some (Inr s', wd2)) = Some y"
  show "\<not> (M = 80 \<and> iou = iou_model \<and> s = single1 \<and> unit_src wd = sconst 0
            \<and> int_src wd = sconst 2)"
  proof
    assume c: "M = 80 \<and> iou = iou_model \<and> s = single1 \<and> unit_src wd = sconst 0
            \<and> int_src wd = sconst 2"
    let ?w1 = "wd\<lparr>int_src := sconst 2\<rparr>"
    let ?w2 = "?w1\<lparr>trials := trials ?w1 + 50\<rparr>"
    have "unit_src ?w1 = unit_src wd" by simp
    with c have u1: "unit_src ?w1 = sconst 0" by simp
    have "unit_src ?w2 = unit_src wd" by simp
    with c have u2: "unit_src ?w2 = sconst 0" by simp
    have i2: "int_src ?w2 = sconst 2" by simp
    have r: "randint (length sample_options) wd = (2, ?w1)"
      using c by (simp add: randint_def sample_options_def)
    from body c have "f 80 iou_model single1 ?w2 = Some y"
      unfolding r by (simp add: sample_options_def trial_loop_single1_fails [OF u1])
    from IH [OF this] u2 i2 show False by blast
  qed
qed

lemma call_world_twos: "RandomSampleCrop_call 80 iou_model single1 world_twos = None"
proof (cases "RandomSampleCrop_call 80 iou_model single1 world_twos")
  case None
  then show ?thesis .
next
  case (Some y)
  from call_single1_no_return [OF Some] show ?thesis
    by (simp add: world_twos_def)
qed

text \<open>
  C2 fails: a mode can be drawn again. On a 100 x 100 frame whose only box has its centre
  outside every rectangle drawn, seven rounds of the mode (0.7, None) run 350 trials
  before \<^verbatim>\<open>None\<close> is drawn and the input is returned, more than 50 x 6; and when
  \<^verbatim>\<open>None\<close> is never drawn the call does not return.
\<close>

theorem C2_trials_exceed_bound:
  "RandomSampleCrop_call 80 iou_model single1 world7
     = Some (Inr single1, \<lparr>int_src = sconst 0, unit_src = sconst 0, perm_src = sconst [1, 0],
                            trials = 350\<rparr>)
   \<and> \<not> (350 \<le> 50 * length sample_options)
   \<and> RandomSampleCrop_call 80 iou_model single1 world_twos = None"
proof -
  have u: "unit_src world7 = sconst 0"
    by (simp add: world7_def)
  have i: "int_src world7 = replicate 7 1 @- sconst 0"
    by (simp add: world7_def eval_nat_numeral)
  have "RandomSampleCrop_call 80 iou_model single1 world7
          = RandomSampleCrop_call 80 iou_model single1
              (world7\<lparr>int_src := sconst 0, trials := trials world7 + 50 * 7\<rparr>)"
    by (rule rounds_single1_fail [OF u i])
  also have "\<dots> = Some (Inr single1, \<lparr>int_src = sconst 0, unit_src = sconst 0,
                          perm_src = sconst [1, 0], trials = 350\<rparr>)"
    by (subst RandomSampleCrop_call.simps)
       (simp add: randint_def sample_options_def world7_def)
  finally show ?thesis
    by (simp add: sample_options_def call_world_twos)
qed

text \<open>
  C2, as the code has it: each mode drawn runs at most 50 trials; if the draw number \<open>k\<close>
  (from 0) of the mode is \<^verbatim>\<open>None\<close>, the call returns after at most 50 * k trials. A first
  draw of \<^verbatim>\<open>None\<close> returns the input unchanged at once. For a mode with bounds, the trial
  loop stops at the first trial that is not rejected: the call returns the sample of that
  accepted trial, or raises the exception of that trial; after 50 rejected trials a new
  mode is drawn.
\<close>

theorem C2_returns_when_None_drawn:
  assumes "sample_options ! (snth (int_src w) k mod length sample_options) = None"
  shows "(\<exists>r w'. RandomSampleCrop_call M iou s w = Some (r, w')
            \<and> trials w' \<le> trials w + 50 * k
            \<and> (case r of
                  Inl e \<Rightarrow> True
                | Inr s' \<Rightarrow> s' = s
                    \<or> (\<exists>md mn mx w0 w1. trial M iou s md mn mx w0 = (Inr (Some s'), w1))))
         \<and> (sample_options ! (shd (int_src w) mod length sample_options) = None \<longrightarrow>
              RandomSampleCrop_call M iou s w = Some (Inr s, w\<lparr>int_src := stl (int_src w)\<rparr>))
         \<and> (\<forall>mn mx w2.
               sample_options ! (shd (int_src w) mod length sample_options) = Some (mn, mx)
               \<and> trial_loop 50 M iou s (Some (mn, mx))
                     (case mn of None \<Rightarrow> NegInf | Some v \<Rightarrow> Fin v)
                     (case mx of None \<Rightarrow> PosInf | Some v \<Rightarrow> Fin v)
                     (w\<lparr>int_src := stl (int_src w)\<rparr>) = (Inr None, w2)
               \<longrightarrow> RandomSampleCrop_call M iou s w = RandomSampleCrop_call M iou s w2)
         \<and> (\<forall>md mn mx w0. trials (snd (trial_loop 50 M iou s md mn mx w0)) \<le> trials w0 + 50)
         \<and> (\<forall>mn mx s' w2.
               sample_options ! (shd (int_src w) mod length sample_options) = Some (mn, mx)
               \<and> trial_loop 50 M iou s (Some (mn, mx))
                     (case mn of None \<Rightarrow> NegInf | Some v \<Rightarrow> Fin v)
                     (case mx of None \<Rightarrow> PosInf | Some v \<Rightarrow> Fin v)
                     (w\<lparr>int_src := stl (int_src w)\<rparr>) = (Inr (Some s'), w2)
               \<longrightarrow> RandomSampleCrop_call M iou s w = Some (Inr s', w2))
         \<and> (\<forall>mn mx e w2.
               sample_options ! (shd (int_src w) mod length sample_options) = Some (mn, mx)
               \<and> trial_loop 50 M iou s (Some (mn, mx))
                     (case mn of None \<Rightarrow> NegInf | Some v \<Rightarrow> Fin v)
                     (case mx of None \<Rightarrow> PosInf | Some v \<Rightarrow> Fin v)
                     (w\<lparr>int_src := stl (int_src w)\<rparr>) = (Inl e, w2)
               \<longrightarrow> RandomSampleCrop_call M iou s w = Some (Inl e, w2))
         \<and> (\<forall>n md mn mx w0 r w1.
               trial M iou s md mn mx (w0\<lparr>trials := trials w0 + 1\<rparr>) = (r, w1)
               \<longrightarrow> trial_loop (Suc n) M iou s md mn mx w0
                     = (if r = Inr None then trial_loop n M iou s md mn mx w1 else (r, w1)))"
proof (intro conjI allI impI)
  show "\<exists>r w'. RandomSampleCrop_call M iou s w = Some (r, w')
            \<and> trials w' \<le> trials w + 50 * k
            \<and> (case r of
                  Inl e \<Rightarrow> True
                | Inr s' \<Rightarrow> s' = s
                    \<or> (\<exists>md mn mx w0 w1. trial M iou s md mn mx w0 = (Inr (Some s'), w1)))"
    by (rule call_returns_when_None_drawn [OF assms])
next
  assume "sample_options ! (shd (int_src w) mod length sample_options) = None"
  then show "RandomSampleCrop_call M iou s w = Some (Inr s, w\<lparr>int_src := stl (int_src w)\<rparr>)"
    by (subst RandomSampleCrop_call.simps) (simp add: randint_def)
next
  fix mn mx w2
  assume "sample_options ! (shd (int_src w) mod length sample_options) = Some (mn, mx)
            \<and> trial_loop 50 M iou s (Some (mn, mx))
                 (case mn of None \<Rightarrow> NegInf | Some v \<Rightarrow> Fin v)
                 (case mx of None \<Rightarrow> PosInf | Some v \<Rightarrow> Fin v)
                 (w\<lparr>int_src := stl (int_src w)\<rparr>) = (Inr None, w2)"
  then show "RandomSampleCrop_call M iou s w = RandomSampleCrop_call M iou s w2"
    by (subst RandomSampleCrop_call.simps) (simp add: randint_def Let_def)
next
  fix md mn mx w0
  obtain r w' where t: "trial_loop 50 M iou s md mn mx w0 = (r, w')"
    by (cases "trial_loop 50 M iou s md mn mx w0")
  from trial_loop_keeps [OF t] t show "trials (snd (trial_loop 50 M iou s md mn mx w0)) \<le> trials w0 + 50"
    by simp
next
  fix mn mx s' w2
  assume "sample_options ! (shd (int_src w) mod length sample_options) = Some (mn, mx)
            \<and> trial_loop 50 M iou s (Some (mn, mx))
                 (case mn of None \<Rightarrow> NegInf | Some v \<Rightarrow> Fin v)
                 (case mx of None \<Rightarrow> PosInf | Some v \<Rightarrow> Fin v)
                 (w\<lparr>int_src := stl (int_src w)\<rparr>) = (Inr (Some s'), w2)"
  then show "RandomSampleCrop_call M iou s w = Some (Inr s', w2)"
    by (subst RandomSampleCrop_call.simps) (simp add: randint_def Let_def)
next
  fix mn mx e w2
  assume "sample_options ! (shd (int_src w) mod length sample_options) = Some (mn, mx)
            \<and> trial_loop 50 M iou s (Some (mn, mx))
                 (case mn of None \<Rightarrow> NegInf | Some v \<Rightarrow> Fin v)
                 (case mx of None \<Rightarrow> PosInf | Some v \<Rightarrow> Fin v)
                 (w\<lparr>int_src := stl (int_src w)\<rparr>) = (Inl e, w2)"
  then show "RandomSampleCrop_call M iou s w = Some (Inl e, w2)"
    by (subst RandomSampleCrop_call.simps) (simp add: randint_def Let_def)
next
  fix n md mn mx w0 r w1
  assume "trial M iou s md mn mx (w0\<lparr>trials := trials w0 + 1\<rparr>) = (r, w1)"
  then show "trial_loop (Suc n) M iou s md mn mx w0
               = (if r = Inr None then trial_loop n M iou s md mn mx w1 else (r, w1))"
    by (auto split: sum.splits option.splits)
qed

lemma unit_draws_shd: "unit_draws w \<Longrightarrow> 0 \<le> shd (unit_src w) \<and> shd (unit_src w) \<le> 1"
  by (cases "unit_src w") (simp add: unit_draws_def)

lemma unit_draws_stl: "unit_draws w \<Longrightarrow> unit_draws (w\<lparr>unit_src := stl (unit_src w)\<rparr>)"
  by (cases "unit_src w") (simp add: unit_draws_def)

lemma unit_draws_int: "unit_draws (w\<lparr>int_src := x\<rparr>) = unit_draws w"
  by (simp add: unit_draws_def)

lemma unit_draws_trials: "unit_draws (w\<lparr>trials := x\<rparr>) = unit_draws w"
  by (simp add: unit_draws_def)

lemma randint_draws: "randint n w = (k, w') \<Longrightarrow> unit_draws w' = unit_draws w"
  by (auto simp add: randint_def unit_draws_def)

lemma uniform_draws:
  assumes "uniform a b w = (x, w')" and "unit_draws w"
  shows "unit_draws w'" and "a \<le> b \<Longrightarrow> a \<le> x \<and> x \<le> b" and "b \<le> a \<Longrightarrow> b \<le> x \<and> x \<le> a"
proof -
  let ?u = "shd (unit_src w)"
  from assms(1) have x: "x = a + (b - a) * ?u" and w': "w' = w\<lparr>unit_src := stl (unit_src w)\<rparr>"
    by (simp_all add: uniform_def)
  from unit_draws_shd [OF assms(2)] have u: "0 \<le> ?u" "?u \<le> 1" by simp_all
  show "unit_draws w'"
    unfolding w' by (rule unit_draws_stl [OF assms(2)])
  show "a \<le> x \<and> x \<le> b" if "a \<le> b"
  proof -
    from that u have "0 \<le> (b - a) * ?u" by simp
    moreover from that u have "(b - a) * ?u \<le> (b - a) * 1"
      by (intro mult_left_mono) simp_all
    ultimately show ?thesis unfolding x by simp
  qed
  show "b \<le> x \<and> x \<le> a" if "b \<le> a"
  proof -
    from that u have "0 \<le> (a - b) * ?u" by simp
    moreover from that u have "(a - b) * ?u \<le> (a - b) * 1"
      by (intro mult_left_mono) simp_all
    moreover have "x = a - (a - b) * ?u"
      unfolding x by (simp add: algebra_simps)
    ultimately show ?thesis by simp
  qed
qed

lemma py_int_nonneg: "0 \<le> x \<Longrightarrow> py_int x = \<lfloor>x\<rfloor> \<and> 0 \<le> py_int x"
  by (simp add: py_int_def)

lemma mid_between: "a \<le> b \<Longrightarrow> a \<le> (a + b) / 2 \<and> (a + b) / 2 \<le> (b :: rat)"
  by (simp add: field_simps)

lemma crop_box_valid:
  assumes v: "valid_box W H b" and c: "center_in (r0, r1, r2, r3) b"
    and r0: "0 \<le> r0" and r1: "0 \<le> r1"
  shows "valid_box (slice_index W r2 - slice_index W r0) (slice_index H r3 - slice_index H r1)
           (clip_shift (r0, r1, r2, r3) b)"
proof -
  obtain x1 y1 x2 y2 where b: "b = (x1, y1, x2, y2)" by (cases b)
  from v b have x: "0 \<le> x1" "x1 \<le> x2" "x2 \<le> of_nat W" and y: "0 \<le> y1" "y1 \<le> y2" "y2 \<le> of_nat H"
    by (simp_all add: valid_box_def)
  from c b have cx: "of_int r0 < (x1 + x2) / 2" "(x1 + x2) / 2 < of_int r2"
    and cy: "of_int r1 < (y1 + y2) / 2" "(y1 + y2) / 2 < of_int r3"
    by (simp_all add: center_in_def Let_def)
  have dim: "of_nat (slice_index n q2 - slice_index n q0) = min (of_nat n) (of_int q2) - (of_int q0 :: rat)"
    if "0 \<le> q0" and "(of_int q0 :: rat) < of_nat n" and "q0 < q2" for n q0 q2
  proof -
    from that have "q0 < int n" by linarith
    with that have "slice_index n q0 = nat q0" "slice_index n q2 = min n (nat q2)" "nat q0 \<le> min n (nat q2)"
      by (auto simp add: slice_index_def)
    then have "int (slice_index n q2 - slice_index n q0) = min (int n) q2 - q0"
      using that by simp
    then have "(of_int (int (slice_index n q2 - slice_index n q0)) :: rat) = of_int (min (int n) q2 - q0)"
      by simp
    then show ?thesis
      by (simp add: min_def)
  qed
  from mid_between [OF x(2)] have mx: "x1 \<le> (x1 + x2) / 2" "(x1 + x2) / 2 \<le> x2" by simp_all
  from mid_between [OF y(2)] have my: "y1 \<le> (y1 + y2) / 2" "(y1 + y2) / 2 \<le> y2" by simp_all
  from cx(1) mx(2) x(3) have "of_int r0 < (of_nat W :: rat)" by (meson less_le_trans)
  moreover from cx have "(of_int r0 :: rat) < of_int r2" by (rule less_trans)
  then have "r0 < r2" by simp
  ultimately have dx: "of_nat (slice_index W r2 - slice_index W r0) = min (of_nat W) (of_int r2) - (of_int r0 :: rat)"
    using r0 by (intro dim) simp_all
  from cy(1) my(2) y(3) have "of_int r1 < (of_nat H :: rat)" by (meson less_le_trans)
  moreover from cy have "(of_int r1 :: rat) < of_int r3" by (rule less_trans)
  then have "r1 < r3" by simp
  ultimately have dy: "of_nat (slice_index H r3 - slice_index H r1) = min (of_nat H) (of_int r3) - (of_int r1 :: rat)"
    using r1 by (intro dim) simp_all
  show ?thesis
    unfolding valid_box_def dx dy b clip_shift_def
    using x y cx cy mx my by (auto simp add: min_def max_def)
qed


lemma slice_image_dims:
  "width (slice_image im (r0, r1, r2, r3)) = slice_index (width im) r2 - slice_index (width im) r0"
  "height (slice_image im (r0, r1, r2, r3)) = slice_index (height im) r3 - slice_index (height im) r1"
  by (simp_all add: slice_image_def Let_def)

lemma crop_valid:
  assumes c: "crop M iou im (Some bs) lab md mn mx w h left top_y isPre = Inr (Some (im', bs', lab'))"
    and v: "list_all (valid_box (width im) (height im)) bs"
    and l: "0 \<le> left" and t: "0 \<le> top_y"
  shows "im' = slice_image im (crop_rect w h left top_y)"
    and "list_all (valid_box (width im') (height im')) bs'"
proof -
  let ?r = "crop_rect w h left top_y"
  from c show im': "im' = slice_image im ?r"
    by (auto simp add: crop_def Let_def split: if_splits option.splits sum.splits)
  from c have bs': "bs' = map (clip_shift ?r) (filter (center_in ?r) bs)"
    by (auto simp add: crop_def Let_def select_map split: if_splits option.splits sum.splits)
  obtain r0 r1 r2 r3 where r: "?r = (r0, r1, r2, r3)" by (cases ?r)
  with l t have r0: "0 \<le> r0" and r1: "0 \<le> r1"
    by (auto simp add: crop_rect_def py_int_def)
  have "valid_box (width im') (height im') (clip_shift ?r b)"
    if "b \<in> set bs" and "center_in ?r b" for b
  proof -
    from v that(1) have "valid_box (width im) (height im) b"
      by (simp add: list_all_iff)
    from crop_box_valid [OF this that(2) [unfolded r] r0 r1] show ?thesis
      unfolding im' r by (simp add: slice_image_dims)
  qed
  then show "list_all (valid_box (width im') (height im')) bs'"
    unfolding bs' by (auto simp add: list_all_iff)
qed

lemma trial_valid:
  assumes tr: "trial M iou s md mn mx w = (r, w')"
    and ok: "sample_ok valid_box s" and ud: "unit_draws w"
  shows "unit_draws w' \<and> (case r of Inr (Some s') \<Rightarrow> sample_ok valid_box s' | _ \<Rightarrow> True)"
proof -
  let ?hgt = "of_nat (height (img_pre s)) :: rat" and ?wid = "of_nat (width (img_pre s)) :: rat"
  obtain cw w1 where u1: "uniform (8 / 10 * ?wid) ?wid w = (cw, w1)"
    by (cases "uniform (8 / 10 * ?wid) ?wid w")
  obtain ch w2 where u2: "uniform (8 / 10 * ?hgt) ?hgt w1 = (ch, w2)"
    by (cases "uniform (8 / 10 * ?hgt) ?hgt w1")
  obtain left w3 where u3: "uniform (?wid - cw) 1 w2 = (left, w3)"
    by (cases "uniform (?wid - cw) 1 w2")
  obtain top_y w4 where u4: "uniform (?hgt - ch) 1 w3 = (top_y, w4)"
    by (cases "uniform (?hgt - ch) 1 w3")
  note d1 = uniform_draws [OF u1 ud]
  note d2 = uniform_draws [OF u2 d1(1)]
  note d3 = uniform_draws [OF u3 d2(1)]
  note d4 = uniform_draws [OF u4 d3(1)]
  have "8 / 10 * ?wid \<le> ?wid" by simp
  from d1(2) [OF this] have cw: "cw \<le> ?wid" by simp
  have "8 / 10 * ?hgt \<le> ?hgt" by simp
  from d2(2) [OF this] have ch: "ch \<le> ?hgt" by simp
  have l: "0 \<le> left"
  proof (cases "?wid - cw \<le> 1")
    case True
    from d3(2) [OF True] cw show ?thesis by simp
  next
    case False
    then have "1 \<le> ?wid - cw" by simp
    from d3(3) [OF this] show ?thesis by simp
  qed
  have t: "0 \<le> top_y"
  proof (cases "?hgt - ch \<le> 1")
    case True
    from d4(2) [OF True] ch show ?thesis by simp
  next
    case False
    then have "1 \<le> ?hgt - ch" by simp
    from d4(3) [OF this] show ?thesis by simp
  qed
  note tr' = tr [unfolded trial_def Let_def u1 u2 u3 u4 prod.case]
  from tr' have w': "w' = w2 \<or> w' = w4"
    by (auto split: if_splits sum.splits option.splits)
  with d2(1) d4(1) have "unit_draws w'" by blast
  moreover have "sample_ok valid_box s'" if r: "r = Inr (Some s')" for s'
  proof (cases "img_next s")
    case None
    with tr' r obtain bp im_a bx_a lab_a where
      c: "crop M iou (img_pre s) (Some bp) (labels s) md mn mx cw ch left top_y True
            = Inr (Some (im_a, bx_a, lab_a))"
      and bp: "boxes_pre s = Some bp"
      and s': "s' = \<lparr>img_pre = im_a, img_next = None, boxes_pre = Some bx_a,
                     boxes_next = boxes_next s, labels = labels s\<rparr>"
      by (cases "boxes_pre s")
         (auto simp add: crop_def split: if_splits sum.splits option.splits)
    from ok bp have "list_all (valid_box (width (img_pre s)) (height (img_pre s))) bp"
      by (simp add: sample_ok_def boxes_ok_def)
    from crop_valid(2) [OF c this l t] show ?thesis
      unfolding s' by (simp add: sample_ok_def boxes_ok_def)
  next
    case (Some im_next)
    with tr' r obtain bp bn im_a bx_a lab_a im_b bx_b lab_b where
      c: "crop M iou (img_pre s) (Some bp) (labels s) md mn mx cw ch left top_y True
            = Inr (Some (im_a, bx_a, lab_a))"
      and c2: "crop M iou im_next (Some bn) (Some lab_a) md mn mx cw ch left top_y False
            = Inr (Some (im_b, bx_b, lab_b))"
      and bp: "boxes_pre s = Some bp" and bn: "boxes_next s = Some bn"
      and s': "s' = \<lparr>img_pre = im_a, img_next = Some im_b, boxes_pre = Some bx_a,
                     boxes_next = Some bx_b, labels = Some lab_b\<rparr>"
      by (cases "boxes_pre s"; cases "boxes_next s")
         (auto simp add: crop_def split: if_splits sum.splits option.splits)
    from ok bp have v1: "list_all (valid_box (width (img_pre s)) (height (img_pre s))) bp"
      by (simp add: sample_ok_def boxes_ok_def)
    from ok Some bn have dims: "height im_next = height (img_pre s)" "width im_next = width (img_pre s)"
      and v2: "list_all (valid_box (width im_next) (height im_next)) bn"
      by (auto simp add: sample_ok_def boxes_ok_def)
    note a = crop_valid [OF c v1 l t]
    note b = crop_valid [OF c2 v2 l t]
    obtain r0 r1 r2 r3 where rr: "crop_rect cw ch left top_y = (r0, r1, r2, r3)"
      by (cases "crop_rect cw ch left top_y")
    from a(1) b(1) dims have "height im_b = height im_a" "width im_b = width im_a"
      unfolding rr by (simp_all add: slice_image_dims)
    with a(2) b(2) show ?thesis
      unfolding s' by (simp add: sample_ok_def boxes_ok_def)
  qed
  ultimately show ?thesis
    by (auto split: sum.splits option.splits)
qed

lemma trial_loop_valid:
  "trial_loop n M iou s md mn mx w = (r, w') \<Longrightarrow> sample_ok valid_box s \<Longrightarrow> unit_draws w
     \<Longrightarrow> unit_draws w' \<and> (case r of Inr (Some s') \<Rightarrow> sample_ok valid_box s' | _ \<Rightarrow> True)"
proof (induction n arbitrary: w)
  case 0
  then show ?case by auto
next
  case (Suc n)
  let ?w = "w\<lparr>trials := trials w + 1\<rparr>"
  obtain r1 w1 where t: "trial M iou s md mn mx ?w = (r1, w1)"
    by (cases "trial M iou s md mn mx ?w")
  from Suc.prems(3) have "unit_draws ?w"
    by (simp add: unit_draws_trials)
  note tv = trial_valid [OF t Suc.prems(2) this]
  show ?case
  proof (cases "r1 = Inr None")
    case True
    with Suc.prems(1) t have "trial_loop n M iou s md mn mx w1 = (r, w')"
      by simp
    from Suc.IH [OF this Suc.prems(2)] tv show ?thesis by simp
  next
    case False
    with Suc.prems(1) t have "r = r1" "w' = w1"
      by (auto split: sum.splits option.splits)
    with tv show ?thesis by simp
  qed
qed

lemma call_valid:
  assumes "RandomSampleCrop_call M iou s w = Some y"
  shows "sample_ok valid_box s \<and> unit_draws w \<longrightarrow>
           unit_draws (snd y) \<and> (case fst y of Inr s' \<Rightarrow> sample_ok valid_box s' | Inl e \<Rightarrow> True)"
proof (rule RandomSampleCrop_call.raw_induct
    [where P = "\<lambda>M iou s w y. sample_ok valid_box s \<and> unit_draws w \<longrightarrow>
           unit_draws (snd y) \<and> (case fst y of Inr s' \<Rightarrow> sample_ok valid_box s' | Inl e \<Rightarrow> True)",
     OF _ assms])
  fix f :: "nat \<Rightarrow> iou_fun \<Rightarrow> sample \<Rightarrow> world \<Rightarrow> ((error + sample) \<times> world) option"
  fix M iou s wd y
  assume IH: "\<And>iou s wd b y. f iou s wd b = Some y \<Longrightarrow>
      sample_ok valid_box wd \<and> unit_draws b \<longrightarrow>
           unit_draws (snd y) \<and> (case fst y of Inr s' \<Rightarrow> sample_ok valid_box s' | Inl e \<Rightarrow> True)"
  assume body: "(case randint (length sample_options) wd of
      (k, wd1) \<Rightarrow>
        case sample_options ! k of None \<Rightarrow> Some (Inr s, wd1)
        | Some (mn, mx) \<Rightarrow>
            let min_iou = case mn of None \<Rightarrow> NegInf | Some v \<Rightarrow> Fin v;
                max_iou = case mx of None \<Rightarrow> PosInf | Some v \<Rightarrow> Fin v
            in case trial_loop 50 M iou s (Some (mn, mx)) min_iou max_iou wd1 of
               (Inl e, wd2) \<Rightarrow> Some (Inl e, wd2)
               | (Inr None, wd2) \<Rightarrow> f M iou s wd2
               | (Inr (Some s'), wd2) \<Rightarrow> Some (Inr s', wd2)) = Some y"
  show "sample_ok valid_box s \<and> unit_draws wd \<longrightarrow>
           unit_draws (snd y) \<and> (case fst y of Inr s' \<Rightarrow> sample_ok valid_box s' | Inl e \<Rightarrow> True)"
  proof
    assume a: "sample_ok valid_box s \<and> unit_draws wd"
    obtain k wd1 where r: "randint (length sample_options) wd = (k, wd1)"
      by (cases "randint (length sample_options) wd")
    from randint_draws [OF r] a have u1: "unit_draws wd1" by simp
    show "unit_draws (snd y) \<and> (case fst y of Inr s' \<Rightarrow> sample_ok valid_box s' | Inl e \<Rightarrow> True)"
    proof (cases "sample_options ! k")
      case None
      with body r a u1 show ?thesis by auto
    next
      case (Some bounds)
      obtain mn mx where b: "bounds = (mn, mx)" by (cases bounds)
      let ?mn = "case mn of None \<Rightarrow> NegInf | Some v \<Rightarrow> Fin v"
      let ?mx = "case mx of None \<Rightarrow> PosInf | Some v \<Rightarrow> Fin v"
      obtain r2 w2 where tl: "trial_loop 50 M iou s (Some (mn, mx)) ?mn ?mx wd1 = (r2, w2)"
        by (cases "trial_loop 50 M iou s (Some (mn, mx)) ?mn ?mx wd1")
      from a have ok: "sample_ok valid_box s" by simp
      note tv = trial_loop_valid [OF tl ok u1]
      from body have body': "(case r2 of Inl e \<Rightarrow> Some (Inl e, w2)
               | Inr None \<Rightarrow> f M iou s w2
               | Inr (Some s') \<Rightarrow> Some (Inr s', w2)) = Some y"
        by (simp add: r Some b tl Let_def split: sum.splits option.splits)
      show ?thesis
      proof (cases r2)
        case (Inl e)
        with body' tv show ?thesis by auto
      next
        case (Inr o')
        show ?thesis
        proof (cases o')
          case None
          with body' Inr have "f M iou s w2 = Some y" by simp
          from IH [OF this] ok tv show ?thesis by simp
        next
          case (Some s')
          with body' Inr tv show ?thesis by auto
        qed
      qed
    qed
  qed
qed

lemma shift_box_valid:
  assumes v: "valid_box W H b" and r: "1 \<le> ratio"
    and l: "0 \<le> left" "left \<le> of_nat W * ratio - of_nat W"
    and t: "0 \<le> top_y" "top_y \<le> of_nat H * ratio - of_nat H"
  shows "valid_box (nat (py_int (of_nat W * ratio))) (nat (py_int (of_nat H * ratio)))
           (shift_box (py_int left) (py_int top_y) b)"
proof -
  obtain x1 y1 x2 y2 where b: "b = (x1, y1, x2, y2)" by (cases b)
  from v b have x: "0 \<le> x1" "x1 \<le> x2" "x2 \<le> of_nat W" and y: "0 \<le> y1" "y1 \<le> y2" "y2 \<le> of_nat H"
    by (simp_all add: valid_box_def)
  have bound: "of_int \<lfloor>d\<rfloor> + c \<le> (of_nat (nat (py_int (of_nat n * ratio))) :: rat)"
    if "0 \<le> d" "d \<le> of_nat n * ratio - of_nat n" "c \<le> of_nat n" for d c n
  proof -
    from r have nn: "0 \<le> (of_nat n :: rat) * ratio" by simp
    then have pi: "py_int (of_nat n * ratio) = \<lfloor>of_nat n * ratio\<rfloor>" "0 \<le> \<lfloor>of_nat n * ratio\<rfloor>"
      by (simp_all add: py_int_def)
    from that(2) have "\<lfloor>d\<rfloor> \<le> \<lfloor>of_nat n * ratio - of_int (int n)\<rfloor>"
      by (intro floor_mono) simp
    also have "\<dots> = \<lfloor>of_nat n * ratio\<rfloor> - int n"
      by (rule floor_diff_of_int)
    finally have "(of_int \<lfloor>d\<rfloor> :: rat) \<le> of_int (\<lfloor>of_nat n * ratio\<rfloor> - int n)"
      by (simp only: of_int_le_iff)
    then have "(of_int \<lfloor>d\<rfloor> :: rat) + of_nat n \<le> of_int \<lfloor>of_nat n * ratio\<rfloor>"
      by simp
    with that(3) have "(of_int \<lfloor>d\<rfloor> :: rat) + c \<le> of_int \<lfloor>of_nat n * ratio\<rfloor>"
      by simp
    moreover have "(of_nat (nat \<lfloor>of_nat n * ratio\<rfloor>) :: rat) = of_int \<lfloor>of_nat n * ratio\<rfloor>"
      using pi(2) by simp
    ultimately show ?thesis
      unfolding pi(1) by simp
  qed
  from l(1) t(1) have pl: "py_int left = \<lfloor>left\<rfloor>" "0 \<le> \<lfloor>left\<rfloor>"
    and pt: "py_int top_y = \<lfloor>top_y\<rfloor>" "0 \<le> \<lfloor>top_y\<rfloor>"
    by (simp_all add: py_int_def)
  from bound [OF l x(3)] bound [OF t y(3)] x y pl pt show ?thesis
    unfolding b shift_box_def valid_box_def
    by (simp add: add.commute)
qed

lemma expand_dims:
  "expand ex im hgt wid dep ratio left top_y = Inr im' \<Longrightarrow>
     height im' = nat (py_int (of_nat hgt * ratio)) \<and> width im' = nat (py_int (of_nat wid * ratio))"
  by (auto simp add: expand_def Let_def split: if_splits)

lemma Expand_call_valid:
  assumes e: "Expand_call ex s w = (Inr s', w')"
    and ok: "sample_ok valid_box s" and ud: "unit_draws w" and me: "1 \<le> max_expand ex"
  shows "unit_draws w' \<and> sample_ok valid_box s'"
proof -
  let ?hgt = "height (img_pre s)" and ?wid = "width (img_pre s)" and ?dep = "depth (img_pre s)"
  obtain b w1 where r: "randint 2 w = (b, w1)" by (cases "randint 2 w")
  from randint_draws [OF r] ud have u1: "unit_draws w1" by simp
  show ?thesis
  proof (cases "b = 0")
    case False
    with e r have "s' = s" "w' = w1"
      by (simp_all add: Expand_call_def)
    with ok u1 show ?thesis by simp
  next
    case True
    obtain ratio w2 where a2: "uniform 1 (max_expand ex) w1 = (ratio, w2)"
      by (cases "uniform 1 (max_expand ex) w1")
    obtain left w3 where a3: "uniform 0 (of_nat ?wid * ratio - of_nat ?wid) w2 = (left, w3)"
      by (cases "uniform 0 (of_nat ?wid * ratio - of_nat ?wid) w2")
    obtain top_y w4 where a4: "uniform 0 (of_nat ?hgt * ratio - of_nat ?hgt) w3 = (top_y, w4)"
      by (cases "uniform 0 (of_nat ?hgt * ratio - of_nat ?hgt) w3")
    note d2 = uniform_draws [OF a2 u1]
    note d3 = uniform_draws [OF a3 d2(1)]
    note d4 = uniform_draws [OF a4 d3(1)]
    from d2(2) [OF me] have ra: "1 \<le> ratio" by simp
    then have "(of_nat ?wid :: rat) * 1 \<le> of_nat ?wid * ratio"
      by (intro mult_left_mono) simp_all
    then have "0 \<le> (of_nat ?wid :: rat) * ratio - of_nat ?wid" by simp
    from d3(2) [OF this] have l: "0 \<le> left" "left \<le> of_nat ?wid * ratio - of_nat ?wid"
      by simp_all
    from ra have "(of_nat ?hgt :: rat) * 1 \<le> of_nat ?hgt * ratio"
      by (intro mult_left_mono) simp_all
    then have "0 \<le> (of_nat ?hgt :: rat) * ratio - of_nat ?hgt" by simp
    from d4(2) [OF this] have t: "0 \<le> top_y" "top_y \<le> of_nat ?hgt * ratio - of_nat ?hgt"
      by simp_all
    note e' = e [unfolded Expand_call_def Let_def r prod.case a2 a3 a4]
    from e' True have w': "w' = w4"
      by (auto split: sum.splits option.splits)
    from e' True obtain ip bp where
      ip: "expand ex (img_pre s) ?hgt ?wid ?dep ratio left top_y = Inr ip"
      and bp: "boxes_pre s = Some bp"
      and pre: "img_pre s' = ip" "boxes_pre s' = Some (map (shift_box (py_int left) (py_int top_y)) bp)"
      by (auto split: sum.splits option.splits)
    from ok bp have vb: "list_all (valid_box ?wid ?hgt) bp"
      by (simp add: sample_ok_def boxes_ok_def)
    have sv: "valid_box (width ip) (height ip) (shift_box (py_int left) (py_int top_y) b)"
      if "valid_box ?wid ?hgt b" for b
      using shift_box_valid [OF that ra l t] expand_dims [OF ip] by simp
    from vb sv have pre_ok: "boxes_ok valid_box (img_pre s') (boxes_pre s')"
      unfolding pre by (simp add: boxes_ok_def list_all_iff)
    have next_ok: "case img_next s' of
            None \<Rightarrow> True
          | Some im \<Rightarrow> height im = height (img_pre s') \<and> width im = width (img_pre s')
                       \<and> boxes_ok valid_box im (boxes_next s')"
    proof (cases "img_next s")
      case None
      with e' True have "img_next s' = None"
        by (auto split: sum.splits option.splits)
      then show ?thesis by simp
    next
      case (Some im)
      with e' True obtain inx bn where
        inx: "expand ex im ?hgt ?wid ?dep ratio left top_y = Inr inx"
        and bn: "boxes_next s = Some bn"
        and nxt: "img_next s' = Some inx"
          "boxes_next s' = Some (map (shift_box (py_int left) (py_int top_y)) bn)"
        by (auto split: sum.splits option.splits)
      from ok Some bn have "list_all (valid_box ?wid ?hgt) bn"
        by (auto simp add: sample_ok_def boxes_ok_def)
      with sv expand_dims [OF ip] expand_dims [OF inx] show ?thesis
        unfolding nxt pre by (simp add: boxes_ok_def list_all_iff)
    qed
    from pre_ok next_ok d4(1) w' show ?thesis
      by (simp add: sample_ok_def)
  qed
qed

lemma Compose_valid:
  "Compose ts s w = Some (Inr s', w') \<Longrightarrow> list_all expand_or_crop ts
     \<Longrightarrow> sample_ok valid_box s \<Longrightarrow> unit_draws w
     \<Longrightarrow> sample_ok valid_box s' \<and> unit_draws w'"
proof (induction ts arbitrary: s w)
  case Nil
  then show ?case by simp
next
  case (Cons t ts)
  from Cons.prems(1) obtain s1 w1 where t: "t s w = Some (Inr s1, w1)"
    and rest: "Compose ts s1 w1 = Some (Inr s', w')"
    by (auto split: option.splits sum.splits)
  from Cons.prems(2) have eo: "expand_or_crop t" and eos: "list_all expand_or_crop ts"
    by simp_all
  have "sample_ok valid_box s1 \<and> unit_draws w1"
  proof -
    from eo consider ex where "1 \<le> max_expand ex" "t = returning (Expand_call ex)"
      | M iou where "t = RandomSampleCrop_call M iou"
      unfolding expand_or_crop_def by blast
    then show ?thesis
    proof cases
      case 1
      with t have "Expand_call ex s w = (Inr s1, w1)"
        by (simp add: returning_def)
      from Expand_call_valid [OF this Cons.prems(3) Cons.prems(4) 1(1)] show ?thesis by simp
    next
      case 2
      with t have "RandomSampleCrop_call M iou s w = Some (Inr s1, w1)" by simp
      from call_valid [OF this] Cons.prems(3) Cons.prems(4) show ?thesis by simp
    qed
  qed
  with Cons.IH [OF rest eos] show ?case by simp
qed

lemma valid_box_in_frame: "valid_box W H b \<Longrightarrow> in_frame W H b"
  by (cases b) (simp add: valid_box_def in_frame_def)

lemma mirror_box_in_frame: "valid_box W H b \<Longrightarrow> in_frame W H (mirror_box W b)"
  by (cases b) (simp add: valid_box_def in_frame_def mirror_box_def)

lemma RandomMirror_call_in_frame:
  assumes m: "RandomMirror_call s w = (Inr s', w')" and ok: "sample_ok valid_box s"
  shows "sample_ok in_frame s'"
proof -
  obtain b w1 where r: "randint 2 w = (b, w1)" by (cases "randint 2 w")
  note m' = m [unfolded RandomMirror_call_def Let_def r prod.case]
  show ?thesis
  proof (cases "b = 0")
    case True
    with m' have "s' = s" by simp
    with ok show ?thesis
      by (auto simp add: sample_ok_def boxes_ok_def list_all_iff valid_box_in_frame
          split: option.splits)
  next
    case False
    with m' ok show ?thesis
      by (auto simp add: sample_ok_def boxes_ok_def list_all_iff mirror_def Let_def
          mirror_box_in_frame split: option.splits sum.splits)
  qed
qed

text \<open>
  C3 fails: a crop clips a box to the edge of the rectangle, so its x2 (and y2) can equal
  the width (height) of the cropped frame, outside the half-open range; and the mirror
  maps x1 and x2 to \<open>width - x1\<close> and \<open>width - x2\<close> without exchanging them.
\<close>

theorem C3_counterexample:
  "half_open_box (width frame100) (height frame100) (10, 10, 95, 95)
   \<and> crop 2 iou_model frame100 (Some [(10, 10, 95, 95)]) (Some eye2) None NegInf PosInf
        90 90 0 0 True
      = Inr (Some (slice_image frame100 (0, 0, 90, 90), [(10, 10, 90, 90)],
                   \<lparr>shape0 = 2, shape1 = 2, rows = [[1, 0], [0, 0]]\<rparr>))
   \<and> \<not> half_open_box (width (slice_image frame100 (0, 0, 90, 90)))
          (height (slice_image frame100 (0, 0, 90, 90))) (10, 10, 90, 90)
   \<and> half_open_box (width frame100) (height frame100) (10, 10, 30, 30)
   \<and> mirror frame100 (Some [(10, 10, 30, 30)]) = Inr (frame100, [(90, 10, 70, 30)])
   \<and> \<not> half_open_box (width frame100) (height frame100) (90, 10, 70, 30)"
proof -
  have c: "crop 2 iou_model frame100 (Some [(10, 10, 95, 95)]) (Some eye2) None NegInf PosInf
        90 90 0 0 True
      = Inr (Some (slice_image frame100 (0, 0, 90, 90), [(10, 10, 90, 90)],
                   \<lparr>shape0 = 2, shape1 = 2, rows = [[1, 0], [0, 0]]\<rparr>))"
    by (simp add: crop_def crop_rect_def py_int_def iou_model_def iou_reject_def center_in_def
        select_def crop_labels_def eye2_def clip_shift_def Let_def numeral_2_eq_2)
  have m: "mirror frame100 (Some [(10, 10, 30, 30)]) = Inr (frame100, [(90, 10, 70, 30)])"
    by (simp add: mirror_def mirror_box_def frame100_def)
  have d: "width (slice_image frame100 (0, 0, 90, 90)) = 90"
    "height (slice_image frame100 (0, 0, 90, 90)) = 90"
    by (simp_all add: slice_image_def slice_index_def frame100_def)
  show ?thesis
    unfolding c m d by (simp add: half_open_box_def frame100_def)
qed

lemma trial_loop_50:
  "trial_loop 50 M iou s md mn mx w =
     (case trial M iou s md mn mx (w\<lparr>trials := trials w + 1\<rparr>) of
        (Inr None, w') \<Rightarrow> trial_loop 49 M iou s md mn mx w'
      | (res, w') \<Rightarrow> (res, w'))"
proof -
  have "(50::nat) = Suc 49" by simp
  then show ?thesis by (simp only: trial_loop.simps)
qed

lemma unit_draws_sconst: "0 \<le> u \<Longrightarrow> u \<le> 1 \<Longrightarrow> unit_src w = sconst u \<Longrightarrow> unit_draws w"
  by (simp add: unit_draws_def stream.pred_set)

lemma expand_pair2:
  "\<exists>s1. Expand_call expand1 pair2 world_half
          = (Inr s1, world_half\<lparr>int_src := sconst 5\<rparr>)
     \<and> height (img_pre s1) = 110 \<and> width (img_pre s1) = 110
     \<and> (\<exists>im. img_next s1 = Some im \<and> height im = 110 \<and> width im = 110)
     \<and> boxes_pre s1 = Some [(15, 15, 35, 35), (65, 25, 75, 45)]
     \<and> boxes_next s1 = Some [(55, 55, 85, 85), (17, 17, 37, 37)]
     \<and> labels s1 = Some \<lparr>shape0 = 2, shape1 = 2, rows = [[0, 1], [0, 0]]\<rparr>"
  by (simp add: Expand_call_def randint_def uniform_def world_half_def expand1_def pair2_def
      frame100_def expand_def py_int_def slice_index_def shift_box_def Let_def)


lemma call_after_expand:
  assumes h: "height (img_pre s1) = 110" "width (img_pre s1) = 110"
    and n: "img_next s1 = Some im" "height im = 110" "width im = 110"
    and bp: "boxes_pre s1 = Some [(15, 15, 35, 35), (65, 25, 75, 45)]"
    and bn: "boxes_next s1 = Some [(55, 55, 85, 85), (17, 17, 37, 37)]"
    and lb: "labels s1 = Some \<lparr>shape0 = 2, shape1 = 2, rows = [[0, 1], [0, 0]]\<rparr>"
  shows "\<exists>s' w'. RandomSampleCrop_call 2 iou_model s1 (world_half\<lparr>int_src := sconst 5\<rparr>)
                    = Some (Inr s', w')
           \<and> boxes_pre s' = Some [(9, 9, 29, 29), (59, 19, 69, 39)]
           \<and> boxes_next s' = Some [(49, 49, 79, 79), (11, 11, 31, 31)]
           \<and> width (img_pre s') = 99 \<and> height (img_pre s') = 99"
proof -
  let ?w = "world_half\<lparr>int_src := sconst 5\<rparr>"
  have r: "crop_rect 99 99 6 6 = (6, 6, 105, 105)"
    by (simp add: crop_rect_def py_int_def)
  have c1: "crop 2 iou_model (img_pre s1) (Some [(15, 15, 35, 35), (65, 25, 75, 45)])
              (Some \<lparr>shape0 = 2, shape1 = 2, rows = [[0, 1], [0, 0]]\<rparr>) md NegInf PosInf
              99 99 6 6 True
            = Inr (Some (slice_image (img_pre s1) (6, 6, 105, 105),
                         [(9, 9, 29, 29), (59, 19, 69, 39)],
                         \<lparr>shape0 = 2, shape1 = 2, rows = [[0, 1], [0, 0]]\<rparr>))" for md
    by (simp add: crop_def r iou_model_def iou_reject_def center_in_def select_def
        crop_labels_def clip_shift_def Let_def)
  have c2: "crop 2 iou_model im (Some [(55, 55, 85, 85), (17, 17, 37, 37)])
              (Some \<lparr>shape0 = 2, shape1 = 2, rows = [[0, 1], [0, 0]]\<rparr>) md NegInf PosInf
              99 99 6 6 False
            = Inr (Some (slice_image im (6, 6, 105, 105),
                         [(49, 49, 79, 79), (11, 11, 31, 31)],
                         \<lparr>shape0 = 2, shape1 = 2, rows = [[0, 1], [0, 0]]\<rparr>))" for md
    by (simp add: crop_def r iou_model_def iou_reject_def center_in_def select_def
        crop_labels_def clip_shift_def Let_def)
  have u: "uniform a b (w\<lparr>unit_src := sconst (1 / 2)\<rparr>)
             = (a + (b - a) * (1 / 2), w\<lparr>unit_src := sconst (1 / 2)\<rparr>)" for a b w
    by (simp add: uniform_def)
  have t: "trial 2 iou_model s1 md NegInf PosInf (w\<lparr>unit_src := sconst (1 / 2)\<rparr>)
             = (Inr (Some \<lparr>img_pre = slice_image (img_pre s1) (6, 6, 105, 105),
                            img_next = Some (slice_image im (6, 6, 105, 105)),
                            boxes_pre = Some [(9, 9, 29, 29), (59, 19, 69, 39)],
                            boxes_next = Some [(49, 49, 79, 79), (11, 11, 31, 31)],
                            labels = Some \<lparr>shape0 = 2, shape1 = 2, rows = [[0, 1], [0, 0]]\<rparr>\<rparr>),
                w\<lparr>unit_src := sconst (1 / 2)\<rparr>)" for md w
    by (simp add: trial_def h n bp bn lb u c1 c2)
  have w: "?w = ?w\<lparr>unit_src := sconst (1 / 2)\<rparr>"
    by (simp add: world_half_def)
  have "RandomSampleCrop_call 2 iou_model s1 ?w
          = Some (Inr \<lparr>img_pre = slice_image (img_pre s1) (6, 6, 105, 105),
                            img_next = Some (slice_image im (6, 6, 105, 105)),
                            boxes_pre = Some [(9, 9, 29, 29), (59, 19, 69, 39)],
                            boxes_next = Some [(49, 49, 79, 79), (11, 11, 31, 31)],
                            labels = Some \<lparr>shape0 = 2, shape1 = 2, rows = [[0, 1], [0, 0]]\<rparr>\<rparr>,
                   world_half\<lparr>int_src := sconst 5, trials := 1\<rparr>)"
    by (subst RandomSampleCrop_call.simps)
       (simp add: randint_def sample_options_def world_half_def trial_loop_50
          t [of _ "\<lparr>int_src = sconst 5, unit_src = sconst (1 / 2), perm_src = sconst [1, 0],
                    trials = 1\<rparr>", simplified])
  then show ?thesis
    by (simp add: slice_image_def slice_index_def h)
qed


text \<open>
  C3, as the code has it: for a sample whose boxes are ordered and lie in the closed
  range \<open>[0, W] x [0, H]\<close> of their frame (the two frames of a pair having the same
  size), and unit draws in [0, 1], every chain of Expand (with \<open>max_expand\<close> at least 1)
  and RandomSampleCrop transforms that returns a sample returns one with the same
  property; a RandomMirror applied to it keeps every coordinate in \<open>[0, W] x [0, H]\<close>
  and the order of y1 and y2.
\<close>

theorem C3_expand_crop_chain:
  assumes "Compose ts s w = Some (Inr s', w')"
    and "list_all expand_or_crop ts"
    and "sample_ok valid_box s"
    and "unit_draws w"
  shows "sample_ok valid_box s'
         \<and> (\<forall>s'' w''. RandomMirror_call s' w' = (Inr s'', w'') \<longrightarrow> sample_ok in_frame s'')"
proof -
  from Compose_valid [OF assms] have ok: "sample_ok valid_box s'" by simp
  moreover have "sample_ok in_frame s''" if "RandomMirror_call s' w' = (Inr s'', w'')" for s'' w''
    using RandomMirror_call_in_frame [OF that ok] .
  ultimately show ?thesis by blast
qed

theorem C3_expand_crop_chain_witness:
  "list_all expand_or_crop [returning (Expand_call expand1), RandomSampleCrop_call 2 iou_model]
   \<and> sample_ok valid_box pair2
   \<and> unit_draws world_half
   \<and> (\<exists>s' w'. Compose [returning (Expand_call expand1), RandomSampleCrop_call 2 iou_model]
                  pair2 world_half = Some (Inr s', w')
          \<and> boxes_pre s' = Some [(9, 9, 29, 29), (59, 19, 69, 39)]
          \<and> boxes_next s' = Some [(49, 49, 79, 79), (11, 11, 31, 31)]
          \<and> width (img_pre s') = 99 \<and> height (img_pre s') = 99
          \<and> sample_ok valid_box s')"
proof -
  let ?ts = "[returning (Expand_call expand1), RandomSampleCrop_call 2 iou_model]"
  have "1 \<le> max_expand expand1"
    by (simp add: expand1_def)
  then have "expand_or_crop (returning (Expand_call expand1))"
    unfolding expand_or_crop_def by blast
  moreover have "expand_or_crop (RandomSampleCrop_call 2 iou_model)"
    unfolding expand_or_crop_def by blast
  ultimately have ts: "list_all expand_or_crop ?ts" by simp
  have ok: "sample_ok valid_box pair2"
    by (simp add: sample_ok_def boxes_ok_def pair2_def valid_box_def frame100_def)
  have ud: "unit_draws world_half"
    by (rule unit_draws_sconst [of "1 / 2"]) (simp_all add: world_half_def)
  from expand_pair2 obtain s1 im where
    e: "Expand_call expand1 pair2 world_half = (Inr s1, world_half\<lparr>int_src := sconst 5\<rparr>)"
    and f: "height (img_pre s1) = 110" "width (img_pre s1) = 110"
      "img_next s1 = Some im" "height im = 110" "width im = 110"
      "boxes_pre s1 = Some [(15, 15, 35, 35), (65, 25, 75, 45)]"
      "boxes_next s1 = Some [(55, 55, 85, 85), (17, 17, 37, 37)]"
      "labels s1 = Some \<lparr>shape0 = 2, shape1 = 2, rows = [[0, 1], [0, 0]]\<rparr>"
    by blast
  from call_after_expand [OF f] obtain s' w' where
    c: "RandomSampleCrop_call 2 iou_model s1 (world_half\<lparr>int_src := sconst 5\<rparr>) = Some (Inr s', w')"
    and g: "boxes_pre s' = Some [(9, 9, 29, 29), (59, 19, 69, 39)]"
      "boxes_next s' = Some [(49, 49, 79, 79), (11, 11, 31, 31)]"
      "width (img_pre s') = 99" "height (img_pre s') = 99"
    by blast
  have run: "Compose ?ts pair2 world_half = Some (Inr s', w')"
    by (simp add: returning_def e c)
  from C3_expand_crop_chain [OF run ts ok ud] have "sample_ok valid_box s'"
    by blast
  with ts ok ud run g show ?thesis by blast
qed

lemma trial_pair2_accepted:
  assumes "unit_src w = sconst 0"
  shows "trial 2 iou_model pair2 md NegInf PosInf w = (Inr (Some cropped2), w)"
proof -
  have r: "crop_rect 80 80 20 20 = (20, 20, 100, 100)"
    by (simp add: crop_rect_def py_int_def)
  have c1: "crop 2 iou_model frame100 (Some [(10, 10, 30, 30), (60, 20, 70, 40)])
              (Some \<lparr>shape0 = 2, shape1 = 2, rows = [[0, 1], [0, 0]]\<rparr>) md NegInf PosInf
              80 80 20 20 True
            = Inr (Some (slice_image frame100 (20, 20, 100, 100), [(40, 0, 50, 20)],
                         \<lparr>shape0 = 2, shape1 = 2, rows = [[0, 0], [0, 0]]\<rparr>))"
    by (simp add: crop_def r iou_model_def iou_reject_def center_in_def select_def
        crop_labels_def clip_shift_def Let_def numeral_2_eq_2)
  have c2: "crop 2 iou_model frame100 (Some [(50, 50, 80, 80), (12, 12, 32, 32)])
              (Some \<lparr>shape0 = 2, shape1 = 2, rows = [[0, 0], [0, 0]]\<rparr>) md NegInf PosInf
              80 80 20 20 False
            = Inr (Some (slice_image frame100 (20, 20, 100, 100),
                         [(30, 30, 60, 60), (0, 0, 12, 12)],
                         \<lparr>shape0 = 2, shape1 = 2, rows = [[0, 0], [0, 0]]\<rparr>))"
    by (simp add: crop_def r iou_model_def iou_reject_def center_in_def select_def
        crop_labels_def clip_shift_def Let_def)
  have u: "uniform a b w = (a, w)" for a b
    using assms by (simp add: uniform_def)
  have d: "height frame100 = 100" "width frame100 = 100"
    "img_pre pair2 = frame100" "img_next pair2 = Some frame100"
    "boxes_pre pair2 = Some [(10, 10, 30, 30), (60, 20, 70, 40)]"
    "boxes_next pair2 = Some [(50, 50, 80, 80), (12, 12, 32, 32)]"
    "labels pair2 = Some \<lparr>shape0 = 2, shape1 = 2, rows = [[0, 1], [0, 0]]\<rparr>"
    by (simp_all add: pair2_def frame100_def)
  show ?thesis
    by (simp add: trial_def d u c1 c2 cropped2_def Let_def)
qed

lemma trial_loop_pair2_accepted:
  "trial_loop 50 2 iou_model pair2 md NegInf PosInf (world_crop\<lparr>int_src := sconst 0\<rparr>)
     = (Inr (Some cropped2), world_crop\<lparr>int_src := sconst 0, trials := 1\<rparr>)"
proof -
  let ?w = "world_crop\<lparr>int_src := sconst 0\<rparr>"
  have "unit_src (?w\<lparr>trials := trials ?w + 1\<rparr>) = unit_src world_crop"
    by simp
  also have "\<dots> = sconst 0"
    by (simp add: world_crop_def)
  finally have u: "unit_src (?w\<lparr>trials := trials ?w + 1\<rparr>) = sconst 0" .
  have "trial_loop 50 2 iou_model pair2 md NegInf PosInf ?w
          = (Inr (Some cropped2), ?w\<lparr>trials := trials ?w + 1\<rparr>)"
    unfolding trial_loop_50 trial_pair2_accepted [OF u] by simp
  then show ?thesis
    by (simp add: world_crop_def)
qed

theorem C2_returns_when_None_drawn_witness:
  "sample_options ! (snth (int_src world7) 7 mod length sample_options) = None
   \<and> (\<exists>r w'. RandomSampleCrop_call 80 iou_model single1 world7 = Some (r, w')
          \<and> trials w' \<le> trials world7 + 50 * 7)
   \<and> sample_options ! (snth (int_src world_crop) 1 mod length sample_options) = None
   \<and> sample_options ! (shd (int_src world_crop) mod length sample_options) = Some (None, None)
   \<and> trial_loop 50 2 iou_model pair2 (Some (None, None)) NegInf PosInf
        (world_crop\<lparr>int_src := stl (int_src world_crop)\<rparr>)
      = (Inr (Some cropped2), world_crop\<lparr>int_src := sconst 0, trials := 1\<rparr>)
   \<and> RandomSampleCrop_call 2 iou_model pair2 world_crop
      = Some (Inr cropped2, world_crop\<lparr>int_src := sconst 0, trials := 1\<rparr>)"
proof -
  have h: "sample_options ! (snth (int_src world7) 7 mod length sample_options) = None"
  proof -
    have "snth (int_src world7) 7 = 0"
      by (simp add: world7_def numeral_nat)
    then show ?thesis
      by (simp add: sample_options_def)
  qed
  from C2_returns_when_None_drawn [OF h, of 80 iou_model single1, THEN conjunct1]
  obtain r w' where "RandomSampleCrop_call 80 iou_model single1 world7 = Some (r, w')"
    and "trials w' \<le> trials world7 + 50 * 7"
    by blast
  then have a: "\<exists>r w'. RandomSampleCrop_call 80 iou_model single1 world7 = Some (r, w')
          \<and> trials w' \<le> trials world7 + 50 * 7"
    by blast
  have g: "sample_options ! (snth (int_src world_crop) 1 mod length sample_options) = None"
    by (simp add: world_crop_def sample_options_def)
  have m: "sample_options ! (shd (int_src world_crop) mod length sample_options) = Some (None, None)"
    by (simp add: world_crop_def sample_options_def)
  have st: "stl (int_src world_crop) = sconst 0"
    by (simp add: world_crop_def)
  have t: "trial_loop 50 2 iou_model pair2 (Some (None, None))
             (case None :: rat option of None \<Rightarrow> NegInf | Some v \<Rightarrow> Fin v)
             (case None :: rat option of None \<Rightarrow> PosInf | Some v \<Rightarrow> Fin v)
             (world_crop\<lparr>int_src := stl (int_src world_crop)\<rparr>)
           = (Inr (Some cropped2), world_crop\<lparr>int_src := sconst 0, trials := 1\<rparr>)"
    unfolding st by (simp add: trial_loop_pair2_accepted)
  note accepted = C2_returns_when_None_drawn [OF g, of 2 iou_model pair2, THEN conjunct2,
      THEN conjunct2, THEN conjunct2, THEN conjunct2, THEN conjunct1, rule_format]
  have c: "RandomSampleCrop_call 2 iou_model pair2 world_crop
      = Some (Inr cropped2, world_crop\<lparr>int_src := sconst 0, trials := 1\<rparr>)"
    by (rule accepted [OF conjI [OF m t]])
  from t have t': "trial_loop 50 2 iou_model pair2 (Some (None, None)) NegInf PosInf
        (world_crop\<lparr>int_src := stl (int_src world_crop)\<rparr>)
      = (Inr (Some cropped2), world_crop\<lparr>int_src := sconst 0, trials := 1\<rparr>)"
    by simp
  from h a g m t' c show ?thesis by blast
qed

end
